theory Spec2Isabelle
  imports Main "HOL-Library.Word" "HOL-Library.Signed_Division"
begin

section \<open>The download item of content/browser/download/download_item_impl.cc\<close>

text \<open>
  The theory embeds \<^verbatim>\<open>DownloadItemImpl\<close>: its fields as a record, its enums as
  datatypes, each method as a function from the item to the item it leaves behind.

  \<^item> Every call the item makes on a collaborator (observers, the request handle, tasks
    posted to the FILE thread, the delegate) is appended to the field \<open>effects\<close>, in
    program order.
  \<^item> What a collaborator answers is read from an \<open>Environment\<close>.
  \<^item> A method that hits a failing \<^verbatim>\<open>DCHECK\<close> (in a build that has them) or that
    dereferences a null \<^verbatim>\<open>scoped_ptr\<close> returns \<open>Inl\<close> of the failure.
  \<^item> \<^verbatim>\<open>int64\<close> is \<open>64 word\<close> and \<^verbatim>\<open>int\<close> is \<open>32 word\<close>, compared as signed values.

  Logging (\<^verbatim>\<open>VLOG\<close>, \<^verbatim>\<open>bound_net_log_\<close>), histograms and the thread assertions
  \<^verbatim>\<open>DCHECK(BrowserThread::CurrentlyOn(...))\<close> change no field of the item and are left
  out, and so are the fields no method writes after construction (URL chain, referrer,
  MIME types, start time) and the end time. A notification of the observers is an entry
  of the trace; what an observer does in return is a further call on the item, made by
  whoever builds the history of calls.
\<close>

subsection \<open>Enumerations\<close>

datatype DownloadInternalState =
    IN_PROGRESS_INTERNAL
  | COMPLETING_INTERNAL
  | COMPLETE_INTERNAL
  | CANCELLED_INTERNAL
  | INTERRUPTED_INTERNAL
  | MAX_DOWNLOAD_INTERNAL_STATE

datatype DownloadState =
    IN_PROGRESS
  | COMPLETE
  | CANCELLED
  | INTERRUPTED
  | MAX_DOWNLOAD_STATE

text \<open>
  The interrupt reasons are declared in a header that is not part of the sources at hand;
  the constructors are the twenty-two labels of the \<^verbatim>\<open>switch\<close> in \<^verbatim>\<open>GetResumeMode\<close>,
  which has no \<^verbatim>\<open>default\<close> branch.
\<close>

datatype DownloadInterruptReason =
    DOWNLOAD_INTERRUPT_REASON_NONE
  | DOWNLOAD_INTERRUPT_REASON_FILE_FAILED
  | DOWNLOAD_INTERRUPT_REASON_FILE_ACCESS_DENIED
  | DOWNLOAD_INTERRUPT_REASON_FILE_NO_SPACE
  | DOWNLOAD_INTERRUPT_REASON_FILE_NAME_TOO_LONG
  | DOWNLOAD_INTERRUPT_REASON_FILE_TOO_LARGE
  | DOWNLOAD_INTERRUPT_REASON_FILE_VIRUS_INFECTED
  | DOWNLOAD_INTERRUPT_REASON_FILE_TRANSIENT_ERROR
  | DOWNLOAD_INTERRUPT_REASON_FILE_BLOCKED
  | DOWNLOAD_INTERRUPT_REASON_FILE_SECURITY_CHECK_FAILED
  | DOWNLOAD_INTERRUPT_REASON_FILE_TOO_SHORT
  | DOWNLOAD_INTERRUPT_REASON_NETWORK_FAILED
  | DOWNLOAD_INTERRUPT_REASON_NETWORK_TIMEOUT
  | DOWNLOAD_INTERRUPT_REASON_NETWORK_DISCONNECTED
  | DOWNLOAD_INTERRUPT_REASON_NETWORK_SERVER_DOWN
  | DOWNLOAD_INTERRUPT_REASON_SERVER_FAILED
  | DOWNLOAD_INTERRUPT_REASON_SERVER_NO_RANGE
  | DOWNLOAD_INTERRUPT_REASON_SERVER_PRECONDITION
  | DOWNLOAD_INTERRUPT_REASON_SERVER_BAD_CONTENT
  | DOWNLOAD_INTERRUPT_REASON_USER_CANCELED
  | DOWNLOAD_INTERRUPT_REASON_USER_SHUTDOWN
  | DOWNLOAD_INTERRUPT_REASON_CRASH

text \<open>
  Modelled from the spec: the declaration of \<^verbatim>\<open>DownloadDangerType\<close> is missing from the
  sources; these are the seven danger types the spec lists, under the names the code uses.
\<close>

datatype DownloadDangerType =
    DOWNLOAD_DANGER_TYPE_NOT_DANGEROUS
  | DOWNLOAD_DANGER_TYPE_DANGEROUS_FILE
  | DOWNLOAD_DANGER_TYPE_DANGEROUS_URL
  | DOWNLOAD_DANGER_TYPE_DANGEROUS_CONTENT
  | DOWNLOAD_DANGER_TYPE_UNCOMMON_CONTENT
  | DOWNLOAD_DANGER_TYPE_DANGEROUS_HOST
  | DOWNLOAD_DANGER_TYPE_USER_VALIDATED

datatype ResumeMode =
    RESUME_MODE_INVALID
  | RESUME_MODE_IMMEDIATE_CONTINUE
  | RESUME_MODE_IMMEDIATE_RESTART
  | RESUME_MODE_USER_CONTINUE
  | RESUME_MODE_USER_RESTART

datatype TargetDisposition =
    TARGET_DISPOSITION_OVERWRITE
  | TARGET_DISPOSITION_UNIQUIFY
  | TARGET_DISPOSITION_PROMPT

datatype DeleteReason =
    DELETE_DUE_TO_USER_DISCARD
  | DELETE_DUE_TO_BROWSER_SHUTDOWN

text \<open>
  The two kinds of request handle an item can hold: the \<^verbatim>\<open>NullDownloadRequestHandle\<close> of
  this file, whose methods have empty bodies and whose \<^verbatim>\<open>GetWebContents\<close> returns NULL,
  and a handle on a real request.
\<close>

datatype RequestHandle =
    NullDownloadRequestHandle
  | LiveRequestHandle

subsection \<open>Machine integers, paths, time\<close>

type_synonym int64 = "64 word"
type_synonym cint = "32 word"
type_synonym FilePath = string

datatype TimeDelta = FromSeconds int64

subsection \<open>Calls on collaborators\<close>

datatype Effect =
    OnDownloadUpdated
  | OnDownloadOpened
  | OnDownloadRemoved
  | PauseRequest
  | ResumeRequest
  | CancelRequest
  | PostDownloadFileInitialize
  | PostRenameAndUniquify FilePath
  | PostRenameAndAnnotate FilePath
  | PostDownloadFileDetach bool
  | PostDownloadFileCancel
  | PostDeleteDownloadedFile FilePath
  | DelegateResumeInterruptedDownload FilePath int64 string string string
  | DelegateShowDownloadInBrowser
  | DelegateDetermineDownloadTarget
  | DelegateShouldCompleteDownload
  | DelegateShouldOpenDownload
  | DelegateCheckForFileRemoval
  | DelegateOpenDownload
  | DelegateShowDownloadInShell
  | DelegateDownloadRemoved

text \<open>
  \<open>PostDownloadFileDetach b\<close>: the task \<^verbatim>\<open>DownloadFileDetach\<close> was posted with the contents
  of \<^verbatim>\<open>download_file_\<close>; \<open>b\<close> tells whether the pointer held a file.
  \<open>DelegateResumeInterruptedDownload\<close> carries the file path, offset, hash state,
  last-modified time and ETag of the rebuilt request parameters.
\<close>

datatype Failure = DCHECK_failed | Null_dereference

subsection \<open>What the item is told by its surroundings\<close>

record Environment =
  dcheck_is_on :: bool
  os_win :: bool
  enable_download_resumption :: bool
  web_contents_alive :: bool
  should_complete_download :: bool
  should_open_download :: bool
  should_open_file_based_on_extension :: bool
  DirName :: "FilePath \<Rightarrow> FilePath"

text \<open>
  \<^item> \<open>dcheck_is_on\<close>: the build has \<^verbatim>\<open>DCHECK\<close>s (they abort) or not (they compile to nothing);
  \<^item> \<open>os_win\<close>: \<^verbatim>\<open>OS_WIN\<close> is defined;
  \<^item> \<open>enable_download_resumption\<close>: the command line has \<^verbatim>\<open>kEnableDownloadResumption\<close>;
  \<^item> \<open>web_contents_alive\<close>: a live request handle's \<^verbatim>\<open>GetWebContents\<close> is not NULL;
  \<^item> \<open>should_complete_download\<close>, \<open>should_open_download\<close>,
    \<open>should_open_file_based_on_extension\<close>: the delegate's answers;
  \<^item> \<open>DirName\<close>: \<^verbatim>\<open>base::FilePath::DirName\<close>, whose code is not part of the sources at hand.
\<close>

subsection \<open>The item\<close>

record Item =
  is_save_package_download :: bool
  request_handle :: "RequestHandle option"
  download_file :: bool
  current_path :: FilePath
  target_path :: FilePath
  target_disposition :: TargetDisposition
  forced_file_path :: FilePath
  display_name :: FilePath
  total_bytes :: int64
  received_bytes :: int64
  bytes_per_sec :: int64
  last_reason :: DownloadInterruptReason
  state :: DownloadInternalState
  danger_type :: DownloadDangerType
  is_paused :: bool
  auto_resume_count :: cint
  open_when_complete :: bool
  file_externally_removed :: bool
  auto_opened :: bool
  is_temporary :: bool
  all_data_saved :: bool
  opened :: bool
  delegate_delayed_complete :: bool
  hash :: string
  hash_state :: string
  last_modified_time :: string
  etag :: string
  effects :: "Effect list"

text \<open>
  \<open>request_handle = None\<close> and \<open>download_file = False\<close> stand for null pointers.
\<close>

definition emit :: "Effect \<Rightarrow> Item \<Rightarrow> Item" where
  "emit e s = s\<lparr>effects := effects s @ [e]\<rparr>"

definition dcheck_fails :: "Environment \<Rightarrow> bool \<Rightarrow> bool" where
  "dcheck_fails env c \<longleftrightarrow> dcheck_is_on env \<and> \<not> c"

definition and_then :: "Failure + 'a \<Rightarrow> ('a \<Rightarrow> Failure + 'b) \<Rightarrow> Failure + 'b" where
  "and_then r f = (case r of Inl e \<Rightarrow> Inl e | Inr x \<Rightarrow> f x)"

definition kMaxAutoResumeAttempts :: cint where
  "kMaxAutoResumeAttempts = 5"

definition kEmptyFileHash :: string where
  "kEmptyFileHash = ''''"

subsection \<open>State conversion and simple queries\<close>

text \<open>
  The two conversions end in \<^verbatim>\<open>NOTREACHED()\<close> for a value outside the named states and
  then return the \<^verbatim>\<open>MAX\<close> value of the other enumeration; the model returns that value.
\<close>

fun InternalToExternalState :: "DownloadInternalState \<Rightarrow> DownloadState" where
  "InternalToExternalState IN_PROGRESS_INTERNAL = IN_PROGRESS"
| "InternalToExternalState COMPLETING_INTERNAL = IN_PROGRESS"
| "InternalToExternalState COMPLETE_INTERNAL = COMPLETE"
| "InternalToExternalState CANCELLED_INTERNAL = CANCELLED"
| "InternalToExternalState INTERRUPTED_INTERNAL = INTERRUPTED"
| "InternalToExternalState MAX_DOWNLOAD_INTERNAL_STATE = MAX_DOWNLOAD_STATE"

fun ExternalToInternalState :: "DownloadState \<Rightarrow> DownloadInternalState" where
  "ExternalToInternalState IN_PROGRESS = IN_PROGRESS_INTERNAL"
| "ExternalToInternalState COMPLETE = COMPLETE_INTERNAL"
| "ExternalToInternalState CANCELLED = CANCELLED_INTERNAL"
| "ExternalToInternalState INTERRUPTED = INTERRUPTED_INTERNAL"
| "ExternalToInternalState MAX_DOWNLOAD_STATE = MAX_DOWNLOAD_INTERNAL_STATE"

definition GetState :: "Item \<Rightarrow> DownloadState" where
  "GetState s = InternalToExternalState (state s)"

definition IsInProgress :: "Item \<Rightarrow> bool" where
  "IsInProgress s \<longleftrightarrow> InternalToExternalState (state s) = IN_PROGRESS"

definition IsInterrupted :: "Item \<Rightarrow> bool" where
  "IsInterrupted s \<longleftrightarrow> InternalToExternalState (state s) = INTERRUPTED"

definition IsComplete :: "Item \<Rightarrow> bool" where
  "IsComplete s \<longleftrightarrow> InternalToExternalState (state s) = COMPLETE"

definition IsDangerous :: "Environment \<Rightarrow> Item \<Rightarrow> bool" where
  "IsDangerous env s \<longleftrightarrow>
     (if os_win env then
        danger_type s = DOWNLOAD_DANGER_TYPE_DANGEROUS_FILE \<or>
        danger_type s = DOWNLOAD_DANGER_TYPE_DANGEROUS_URL \<or>
        danger_type s = DOWNLOAD_DANGER_TYPE_DANGEROUS_CONTENT \<or>
        danger_type s = DOWNLOAD_DANGER_TYPE_UNCOMMON_CONTENT \<or>
        danger_type s = DOWNLOAD_DANGER_TYPE_DANGEROUS_HOST
      else
        danger_type s = DOWNLOAD_DANGER_TYPE_DANGEROUS_FILE \<or>
        danger_type s = DOWNLOAD_DANGER_TYPE_DANGEROUS_URL)"

definition GetWebContents :: "Environment \<Rightarrow> Item \<Rightarrow> bool" where
  "GetWebContents env s =
     (case request_handle s of
        None \<Rightarrow> False
      | Some NullDownloadRequestHandle \<Rightarrow> False
      | Some LiveRequestHandle \<Rightarrow> web_contents_alive env)"

definition CurrentSpeed :: "Item \<Rightarrow> int64" where
  "CurrentSpeed s = (if is_paused s then 0 else bytes_per_sec s)"

text \<open>
  \<^verbatim>\<open>TimeRemaining\<close> writes through its pointer argument only on the path that returns
  true; the model takes the old contents of \<^verbatim>\<open>*remaining\<close> and returns the new ones.
  The quotient is C++'s division of signed 64-bit values, which truncates towards zero.
\<close>

definition TimeRemaining :: "Item \<Rightarrow> TimeDelta \<Rightarrow> bool \<times> TimeDelta" where
  "TimeRemaining s remaining =
     (if total_bytes s <=s 0 then (False, remaining)
      else
        let speed = CurrentSpeed s in
        if speed = 0 then (False, remaining)
        else (True,
              FromSeconds (word_of_int
                (sint (total_bytes s - received_bytes s) sdiv sint speed))))"

subsection \<open>The resume mode\<close>

definition GetResumeMode :: "Item \<Rightarrow> ResumeMode" where
  "GetResumeMode s =
     (if \<not> IsInterrupted s then RESUME_MODE_INVALID
      else
        let force_restart = (current_path s = []);
            force_user = (kMaxAutoResumeAttempts <=s auto_resume_count s \<or> is_paused s)
        in
        case last_reason s of
          DOWNLOAD_INTERRUPT_REASON_FILE_TRANSIENT_ERROR \<Rightarrow>
            if force_restart \<and> force_user then RESUME_MODE_USER_RESTART
            else if force_restart then RESUME_MODE_IMMEDIATE_RESTART
            else if force_user then RESUME_MODE_USER_CONTINUE
            else RESUME_MODE_IMMEDIATE_CONTINUE
        | DOWNLOAD_INTERRUPT_REASON_NETWORK_TIMEOUT \<Rightarrow>
            if force_restart \<and> force_user then RESUME_MODE_USER_RESTART
            else if force_restart then RESUME_MODE_IMMEDIATE_RESTART
            else if force_user then RESUME_MODE_USER_CONTINUE
            else RESUME_MODE_IMMEDIATE_CONTINUE
        | DOWNLOAD_INTERRUPT_REASON_SERVER_PRECONDITION \<Rightarrow>
            if force_user then RESUME_MODE_USER_RESTART else RESUME_MODE_IMMEDIATE_RESTART
        | DOWNLOAD_INTERRUPT_REASON_SERVER_NO_RANGE \<Rightarrow>
            if force_user then RESUME_MODE_USER_RESTART else RESUME_MODE_IMMEDIATE_RESTART
        | DOWNLOAD_INTERRUPT_REASON_FILE_TOO_SHORT \<Rightarrow>
            if force_user then RESUME_MODE_USER_RESTART else RESUME_MODE_IMMEDIATE_RESTART
        | DOWNLOAD_INTERRUPT_REASON_NETWORK_FAILED \<Rightarrow>
            if force_restart then RESUME_MODE_USER_RESTART else RESUME_MODE_USER_CONTINUE
        | DOWNLOAD_INTERRUPT_REASON_NETWORK_DISCONNECTED \<Rightarrow>
            if force_restart then RESUME_MODE_USER_RESTART else RESUME_MODE_USER_CONTINUE
        | DOWNLOAD_INTERRUPT_REASON_NETWORK_SERVER_DOWN \<Rightarrow>
            if force_restart then RESUME_MODE_USER_RESTART else RESUME_MODE_USER_CONTINUE
        | DOWNLOAD_INTERRUPT_REASON_SERVER_FAILED \<Rightarrow>
            if force_restart then RESUME_MODE_USER_RESTART else RESUME_MODE_USER_CONTINUE
        | DOWNLOAD_INTERRUPT_REASON_USER_SHUTDOWN \<Rightarrow>
            if force_restart then RESUME_MODE_USER_RESTART else RESUME_MODE_USER_CONTINUE
        | DOWNLOAD_INTERRUPT_REASON_CRASH \<Rightarrow>
            if force_restart then RESUME_MODE_USER_RESTART else RESUME_MODE_USER_CONTINUE
        | DOWNLOAD_INTERRUPT_REASON_FILE_FAILED \<Rightarrow> RESUME_MODE_USER_RESTART
        | DOWNLOAD_INTERRUPT_REASON_FILE_ACCESS_DENIED \<Rightarrow> RESUME_MODE_USER_RESTART
        | DOWNLOAD_INTERRUPT_REASON_FILE_NO_SPACE \<Rightarrow> RESUME_MODE_USER_RESTART
        | DOWNLOAD_INTERRUPT_REASON_FILE_NAME_TOO_LONG \<Rightarrow> RESUME_MODE_USER_RESTART
        | DOWNLOAD_INTERRUPT_REASON_FILE_TOO_LARGE \<Rightarrow> RESUME_MODE_USER_RESTART
        | DOWNLOAD_INTERRUPT_REASON_NONE \<Rightarrow> RESUME_MODE_INVALID
        | DOWNLOAD_INTERRUPT_REASON_FILE_VIRUS_INFECTED \<Rightarrow> RESUME_MODE_INVALID
        | DOWNLOAD_INTERRUPT_REASON_SERVER_BAD_CONTENT \<Rightarrow> RESUME_MODE_INVALID
        | DOWNLOAD_INTERRUPT_REASON_USER_CANCELED \<Rightarrow> RESUME_MODE_INVALID
        | DOWNLOAD_INTERRUPT_REASON_FILE_BLOCKED \<Rightarrow> RESUME_MODE_INVALID
        | DOWNLOAD_INTERRUPT_REASON_FILE_SECURITY_CHECK_FAILED \<Rightarrow> RESUME_MODE_INVALID)"

subsection \<open>Progress queries\<close>

text \<open>
  \<^verbatim>\<open>PercentComplete\<close> computes \<^verbatim>\<open>static_cast<int>(received_bytes_ * 100.0 / total_bytes_)\<close>
  in double precision. With \<open>r\<close> and \<open>t\<close> the two byte counts and \<open>0 < t\<close>, the product
  \<open>r * 100\<close> and \<open>t\<close> are exact doubles and the rounded quotient has the integer part of
  the exact one as long as \<open>\<bar>r\<bar> * 100 + t \<le> 2 ^ 52\<close>; the cast is defined when that integer
  part fits an \<^verbatim>\<open>int\<close>. On these inputs the result is the quotient truncated towards zero.
  Outside them the model gives \<open>None\<close>: it says nothing about the value.
\<close>

definition PercentComplete :: "Item \<Rightarrow> int option" where
  "PercentComplete s =
     (if delegate_delayed_complete s \<or> total_bytes s <=s 0 then Some (- 1)
      else
        let r = sint (received_bytes s); t = sint (total_bytes s); q = (r * 100) sdiv t in
        if \<bar>r\<bar> * 100 + t \<le> 2 ^ 52 \<and> \<bar>q\<bar> < 2 ^ 31 then Some q else None)"

subsection \<open>Observers, state transitions, handles\<close>

definition UpdateObservers :: "Item \<Rightarrow> Item" where
  "UpdateObservers s = emit OnDownloadUpdated s"

definition TransitionTo :: "DownloadInternalState \<Rightarrow> Item \<Rightarrow> Item" where
  "TransitionTo new_state s =
     (if state s = new_state then s
      else
        let old_state = state s; s1 = s\<lparr>state := new_state\<rparr> in
        if InternalToExternalState (state s1) \<noteq> InternalToExternalState old_state
        then UpdateObservers s1 else s1)"

text \<open>
  A call through \<^verbatim>\<open>request_handle_\<close>: a null pointer cannot be called; otherwise the call
  is recorded (on a \<open>NullDownloadRequestHandle\<close> it then does nothing).
\<close>

definition request_handle_call :: "Effect \<Rightarrow> Item \<Rightarrow> Failure + Item" where
  "request_handle_call e s =
     (case request_handle s of
        None \<Rightarrow> Inl Null_dereference
      | Some h \<Rightarrow> Inr (emit e s))"

definition CancelDownloadFile :: "Item \<Rightarrow> Item" where
  "CancelDownloadFile s =
     (if \<not> is_save_package_download s \<and> download_file s
      then emit PostDownloadFileCancel (s\<lparr>download_file := False\<rparr>)
      else s)"

definition SetDangerType :: "DownloadDangerType \<Rightarrow> Item \<Rightarrow> Item" where
  "SetDangerType dt s = s\<lparr>danger_type := dt\<rparr>"

definition SetFullPath :: "Environment \<Rightarrow> FilePath \<Rightarrow> Item \<Rightarrow> Failure + Item" where
  "SetFullPath env new_path s =
     (if dcheck_fails env (new_path \<noteq> []) then Inl DCHECK_failed
      else Inr (UpdateObservers (s\<lparr>current_path := new_path\<rparr>)))"

subsection \<open>Resumption\<close>

text \<open>
  The request parameters are rebuilt from the original URL (not modelled), the current
  path, the received bytes, the hash state and the validators.
\<close>

definition ResumeInterruptedDownload :: "Environment \<Rightarrow> Item \<Rightarrow> Failure + Item" where
  "ResumeInterruptedDownload env s =
     (if \<not> enable_download_resumption env then Inr s
      else if dcheck_fails env (IsInterrupted s) then Inl DCHECK_failed
      else if \<not> GetWebContents env s then Inr s
      else
        let mode = GetResumeMode s;
            s1 = (if mode = RESUME_MODE_IMMEDIATE_RESTART \<or> mode = RESUME_MODE_USER_RESTART
                  then s\<lparr>received_bytes := 0, hash_state := [],
                         last_modified_time := [], etag := []\<rparr>
                  else s);
            s2 = emit (DelegateResumeInterruptedDownload (current_path s1) (received_bytes s1)
                         (hash_state s1) (last_modified_time s1) (etag s1)) s1
        in Inr (s2\<lparr>is_paused := False\<rparr>))"

definition AutoResumeIfValid :: "Environment \<Rightarrow> Item \<Rightarrow> Failure + Item" where
  "AutoResumeIfValid env s =
     (let mode = GetResumeMode s in
      if mode \<noteq> RESUME_MODE_IMMEDIATE_RESTART \<and> mode \<noteq> RESUME_MODE_IMMEDIATE_CONTINUE
      then Inr s
      else ResumeInterruptedDownload env (s\<lparr>auto_resume_count := auto_resume_count s + 1\<rparr>))"

subsection \<open>Interrupt and the user's actions\<close>

definition Interrupt :: "Environment \<Rightarrow> DownloadInterruptReason \<Rightarrow> Item \<Rightarrow> Failure + Item" where
  "Interrupt env reason s =
     (if state s \<noteq> IN_PROGRESS_INTERNAL then Inr s
      else
        let s1 = TransitionTo INTERRUPTED_INTERNAL (s\<lparr>last_reason := reason\<rparr>);
            resume_mode = GetResumeMode s1;
            s2 = (if resume_mode = RESUME_MODE_IMMEDIATE_RESTART \<or>
                     resume_mode = RESUME_MODE_USER_RESTART
                  then CancelDownloadFile s1
                  else emit (PostDownloadFileDetach (download_file s1))
                         (s1\<lparr>download_file := False\<rparr>))
        in and_then (request_handle_call CancelRequest s2) (AutoResumeIfValid env))"

definition Pause :: "Item \<Rightarrow> Failure + Item" where
  "Pause s =
     (if state s \<noteq> IN_PROGRESS_INTERNAL \<or> is_paused s then Inr s
      else and_then (request_handle_call PauseRequest s)
             (\<lambda>s1. Inr (UpdateObservers (s1\<lparr>is_paused := True\<rparr>))))"

definition Resume :: "Environment \<Rightarrow> Item \<Rightarrow> Failure + Item" where
  "Resume env s =
     (if state s = COMPLETE_INTERNAL \<or> state s = COMPLETING_INTERNAL \<or> \<not> is_paused s
      then Inr s
      else if state s = INTERRUPTED_INTERNAL
      then ResumeInterruptedDownload env (s\<lparr>auto_resume_count := 0\<rparr>)
      else if dcheck_fails env (state s = IN_PROGRESS_INTERNAL) then Inl DCHECK_failed
      else and_then (request_handle_call ResumeRequest s)
             (\<lambda>s1. Inr (UpdateObservers (s1\<lparr>is_paused := False\<rparr>))))"

definition Cancel :: "bool \<Rightarrow> Item \<Rightarrow> Failure + Item" where
  "Cancel user_cancel s =
     (if state s \<noteq> IN_PROGRESS_INTERNAL \<and> state s \<noteq> INTERRUPTED_INTERNAL then Inr s
      else
        let s1 = s\<lparr>last_reason :=
                     (if user_cancel then DOWNLOAD_INTERRUPT_REASON_USER_CANCELED
                      else DOWNLOAD_INTERRUPT_REASON_USER_SHUTDOWN)\<rparr>;
            s2 = CancelDownloadFile s1
        in and_then
             (if state s2 \<noteq> INTERRUPTED_INTERNAL then request_handle_call CancelRequest s2
              else Inr s2)
             (\<lambda>s3. Inr (TransitionTo CANCELLED_INTERNAL s3)))"

definition Remove :: "Item \<Rightarrow> Failure + Item" where
  "Remove s =
     and_then (Cancel True s)
       (\<lambda>s1. Inr (emit DelegateDownloadRemoved (emit OnDownloadRemoved s1)))"

definition Delete :: "DeleteReason \<Rightarrow> Item \<Rightarrow> Failure + Item" where
  "Delete reason s =
     Remove (if current_path s \<noteq> [] \<and> \<not> download_file s
             then emit (PostDeleteDownloadedFile (current_path s)) s
             else s)"

definition OpenDownload :: "Item \<Rightarrow> Item" where
  "OpenDownload s =
     (if state s = IN_PROGRESS_INTERNAL
      then (if \<not> is_temporary s then s\<lparr>open_when_complete := \<not> open_when_complete s\<rparr> else s)
      else if state s \<noteq> COMPLETE_INTERNAL \<or> file_externally_removed s then s
      else emit DelegateOpenDownload
             (emit OnDownloadOpened ((emit DelegateCheckForFileRemoval s)\<lparr>opened := True\<rparr>)))"

definition ShowDownloadInShell :: "Item \<Rightarrow> Item" where
  "ShowDownloadInShell s = emit DelegateShowDownloadInShell s"

definition OnContentCheckCompleted ::
    "Environment \<Rightarrow> DownloadDangerType \<Rightarrow> Item \<Rightarrow> Failure + Item" where
  "OnContentCheckCompleted env dt s =
     (if dcheck_fails env (all_data_saved s) then Inl DCHECK_failed
      else Inr (UpdateObservers (SetDangerType dt s)))"

definition SetOpenWhenComplete :: "bool \<Rightarrow> Item \<Rightarrow> Item" where
  "SetOpenWhenComplete b s = s\<lparr>open_when_complete := b\<rparr>"

definition SetIsTemporary :: "bool \<Rightarrow> Item \<Rightarrow> Item" where
  "SetIsTemporary b s = s\<lparr>is_temporary := b\<rparr>"

definition SetOpened :: "bool \<Rightarrow> Item \<Rightarrow> Item" where
  "SetOpened b s = s\<lparr>opened := b\<rparr>"

definition SetDisplayName :: "FilePath \<Rightarrow> Item \<Rightarrow> Item" where
  "SetDisplayName name s = s\<lparr>display_name := name\<rparr>"

definition SetTotalBytes :: "int64 \<Rightarrow> Item \<Rightarrow> Item" where
  "SetTotalBytes n s = s\<lparr>total_bytes := n\<rparr>"

definition OnDownloadedFileRemoved :: "Item \<Rightarrow> Item" where
  "OnDownloadedFileRemoved s = UpdateObservers (s\<lparr>file_externally_removed := True\<rparr>)"

subsection \<open>Progress updates\<close>

definition UpdateProgress :: "int64 \<Rightarrow> int64 \<Rightarrow> string \<Rightarrow> Item \<Rightarrow> Item" where
  "UpdateProgress bytes_so_far bps hs s =
     (if state s \<noteq> IN_PROGRESS_INTERNAL then s
      else
        let s1 = s\<lparr>bytes_per_sec := bps, hash_state := hs, received_bytes := bytes_so_far\<rparr>;
            s2 = (if total_bytes s1 <s received_bytes s1 then s1\<lparr>total_bytes := 0\<rparr> else s1)
        in UpdateObservers s2)"

definition DestinationUpdate :: "int64 \<Rightarrow> int64 \<Rightarrow> string \<Rightarrow> Item \<Rightarrow> Item" where
  "DestinationUpdate bytes_so_far bps hs s =
     (if \<not> IsInProgress s then s
      else
        let s1 = s\<lparr>bytes_per_sec := bps, hash_state := hs, received_bytes := bytes_so_far\<rparr>;
            s2 = (if total_bytes s1 <s received_bytes s1 then s1\<lparr>total_bytes := 0\<rparr> else s1)
        in UpdateObservers s2)"

definition OnAllDataSaved :: "Environment \<Rightarrow> string \<Rightarrow> Item \<Rightarrow> Failure + Item" where
  "OnAllDataSaved env final_hash s =
     (if dcheck_fails env (state s = IN_PROGRESS_INTERNAL) then Inl DCHECK_failed
      else if dcheck_fails env (\<not> all_data_saved s) then Inl DCHECK_failed
      else Inr (UpdateObservers
                  (s\<lparr>all_data_saved := True, hash := final_hash, hash_state := []\<rparr>)))"

definition MarkAsComplete :: "Environment \<Rightarrow> Item \<Rightarrow> Failure + Item" where
  "MarkAsComplete env s =
     (if dcheck_fails env (all_data_saved s) then Inl DCHECK_failed
      else Inr (TransitionTo COMPLETE_INTERNAL s))"

definition DestinationError ::
    "Environment \<Rightarrow> DownloadInterruptReason \<Rightarrow> Item \<Rightarrow> Failure + Item" where
  "DestinationError env reason s = Interrupt env reason s"

subsection \<open>The download progression cascade\<close>

text \<open>
  \<^verbatim>\<open>Start\<close> receives the download file and the request handle; either pointer may be null
  (\<open>file = False\<close>, \<open>req = None\<close>), which the \<^verbatim>\<open>DCHECK\<close>s forbid.
\<close>

definition Start :: "Environment \<Rightarrow> bool \<Rightarrow> RequestHandle option \<Rightarrow> Item \<Rightarrow> Failure + Item" where
  "Start env file req s =
     (if dcheck_fails env (\<not> download_file s) then Inl DCHECK_failed
      else if dcheck_fails env file then Inl DCHECK_failed
      else if dcheck_fails env (req \<noteq> None) then Inl DCHECK_failed
      else
        let s1 = s\<lparr>download_file := file, request_handle := req\<rparr>;
            s2 = TransitionTo IN_PROGRESS_INTERNAL s1;
            s3 = s2\<lparr>last_reason := DOWNLOAD_INTERRUPT_REASON_NONE\<rparr>
        in Inr (emit PostDownloadFileInitialize s3))"

text \<open>
  The delegate's \<^verbatim>\<open>ShouldCompleteDownload\<close> is asked only when the five tests before it
  pass; the call hands it the retry callback, so it is recorded.
\<close>

definition IsDownloadReadyForCompletion :: "Environment \<Rightarrow> Item \<Rightarrow> bool \<times> Item" where
  "IsDownloadReadyForCompletion env s =
     (if \<not> all_data_saved s then (False, s)
      else if IsDangerous env s then (False, s)
      else if state s \<noteq> IN_PROGRESS_INTERNAL then (False, s)
      else if target_path s = [] then (False, s)
      else if DirName env (target_path s) \<noteq> DirName env (current_path s) then (False, s)
      else if \<not> should_complete_download env then (False, emit DelegateShouldCompleteDownload s)
      else (True, emit DelegateShouldCompleteDownload s))"

definition Completed :: "Environment \<Rightarrow> Item \<Rightarrow> Failure + Item" where
  "Completed env s =
     (if dcheck_fails env (all_data_saved s) then Inl DCHECK_failed
      else
        let s1 = TransitionTo COMPLETE_INTERNAL s in
        if auto_opened s1 then Inr s1
        else if open_when_complete s1 \<or> should_open_file_based_on_extension env \<or>
                is_temporary s1
        then
          let s2 = (if \<not> is_temporary s1 then OpenDownload s1 else s1)
          in Inr (UpdateObservers (s2\<lparr>auto_opened := True\<rparr>))
        else Inr s1)"

definition OnDownloadCompleting :: "Environment \<Rightarrow> Item \<Rightarrow> Failure + Item" where
  "OnDownloadCompleting env s =
     (if state s \<noteq> IN_PROGRESS_INTERNAL then Inr s
      else if dcheck_fails env (target_path s \<noteq> []) then Inl DCHECK_failed
      else if dcheck_fails env (\<not> IsDangerous env s) then Inl DCHECK_failed
      else if is_save_package_download s then Completed env s
      else if dcheck_fails env (download_file s) then Inl DCHECK_failed
      else Inr (emit (PostRenameAndAnnotate (target_path s)) s))"

definition MaybeCompleteDownload :: "Environment \<Rightarrow> Item \<Rightarrow> Failure + Item" where
  "MaybeCompleteDownload env s =
     (if dcheck_fails env (\<not> is_save_package_download s) then Inl DCHECK_failed
      else
        case IsDownloadReadyForCompletion env s of
          (ready, s1) \<Rightarrow>
            if \<not> ready then Inr s1
            else if dcheck_fails env (state s1 = IN_PROGRESS_INTERNAL) then Inl DCHECK_failed
            else if dcheck_fails env (\<not> IsDangerous env s1) then Inl DCHECK_failed
            else if dcheck_fails env (all_data_saved s1) then Inl DCHECK_failed
            else OnDownloadCompleting env s1)"

definition DangerousDownloadValidated :: "Environment \<Rightarrow> Item \<Rightarrow> Failure + Item" where
  "DangerousDownloadValidated env s =
     (if dcheck_fails env (GetState s = IN_PROGRESS) then Inl DCHECK_failed
      else if dcheck_fails env (IsDangerous env s) then Inl DCHECK_failed
      else if GetState s \<noteq> IN_PROGRESS then Inr s
      else MaybeCompleteDownload env
             (UpdateObservers (s\<lparr>danger_type := DOWNLOAD_DANGER_TYPE_USER_VALIDATED\<rparr>)))"

definition DestinationCompleted :: "Environment \<Rightarrow> string \<Rightarrow> Item \<Rightarrow> Failure + Item" where
  "DestinationCompleted env final_hash s =
     (if \<not> IsInProgress s then Inr s
      else and_then (OnAllDataSaved env final_hash s) (MaybeCompleteDownload env))"

definition OnDownloadFileInitialized ::
    "Environment \<Rightarrow> DownloadInterruptReason \<Rightarrow> Item \<Rightarrow> Failure + Item" where
  "OnDownloadFileInitialized env result s =
     and_then
       (if result \<noteq> DOWNLOAD_INTERRUPT_REASON_NONE then Interrupt env result s else Inr s)
       (\<lambda>s1.
          if target_path s1 \<noteq> [] \<and> current_path s1 \<noteq> []
          then MaybeCompleteDownload env (emit DelegateShowDownloadInBrowser s1)
          else Inr (emit DelegateDetermineDownloadTarget (s1\<lparr>target_path := []\<rparr>)))"

definition OnDownloadTargetDetermined ::
    "Environment \<Rightarrow> FilePath \<Rightarrow> TargetDisposition \<Rightarrow> DownloadDangerType \<Rightarrow> FilePath \<Rightarrow>
     Item \<Rightarrow> Failure + Item" where
  "OnDownloadTargetDetermined env tp disposition dt intermediate_path s =
     (if tp = [] then Cancel True s
      else
        let s1 = SetDangerType dt (s\<lparr>target_path := tp, target_disposition := disposition\<rparr>) in
        if dcheck_fails env (DirName env intermediate_path = DirName env tp)
        then Inl DCHECK_failed
        else if dcheck_fails env (\<not> is_save_package_download s1) then Inl DCHECK_failed
        else if dcheck_fails env (download_file s1) then Inl DCHECK_failed
        else Inr (emit (PostRenameAndUniquify intermediate_path) s1))"

definition OnDownloadRenamedToIntermediateName ::
    "Environment \<Rightarrow> DownloadInterruptReason \<Rightarrow> FilePath \<Rightarrow> Item \<Rightarrow> Failure + Item" where
  "OnDownloadRenamedToIntermediateName env reason full_path s =
     and_then
       (if DOWNLOAD_INTERRUPT_REASON_NONE \<noteq> reason then Interrupt env reason s
        else SetFullPath env full_path s)
       (\<lambda>s1. MaybeCompleteDownload env (emit DelegateShowDownloadInBrowser s1))"

definition OnDownloadRenamedToFinalName ::
    "Environment \<Rightarrow> DownloadInterruptReason \<Rightarrow> FilePath \<Rightarrow> Item \<Rightarrow> Failure + Item" where
  "OnDownloadRenamedToFinalName env reason full_path s =
     (if dcheck_fails env (\<not> is_save_package_download s) then Inl DCHECK_failed
      else if state s \<noteq> IN_PROGRESS_INTERNAL then Inr s
      else if DOWNLOAD_INTERRUPT_REASON_NONE \<noteq> reason then Interrupt env reason s
      else if dcheck_fails env (target_path s = full_path) then Inl DCHECK_failed
      else
        and_then
          (if full_path \<noteq> current_path s
           then (if dcheck_fails env (full_path \<noteq> []) then Inl DCHECK_failed
                 else SetFullPath env full_path s)
           else Inr s)
          (\<lambda>s1.
             if dcheck_fails env (download_file s1) then Inl DCHECK_failed
             else
               let s2 = emit (PostDownloadFileDetach (download_file s1))
                          (s1\<lparr>download_file := False\<rparr>);
                   s3 = TransitionTo COMPLETING_INTERNAL s2;
                   s4 = emit DelegateShouldOpenDownload s3
               in if should_open_download env then Completed env s4
                  else Inr (s4\<lparr>delegate_delayed_complete := True\<rparr>)))"

definition DelayedDownloadOpened :: "Environment \<Rightarrow> bool \<Rightarrow> Item \<Rightarrow> Failure + Item" where
  "DelayedDownloadOpened env ao s = Completed env (s\<lparr>auto_opened := ao\<rparr>)"

subsection \<open>Construction\<close>

text \<open>
  \<^verbatim>\<open>Init\<close> fills an empty target path with the current path; the rest of it is logging.
\<close>

definition Init :: "Item \<Rightarrow> Item" where
  "Init s = (if target_path s = [] then s\<lparr>target_path := current_path s\<rparr> else s)"

text \<open>The constructor for an item read from the history service.\<close>

definition DownloadItemImpl_history ::
    "FilePath \<Rightarrow> FilePath \<Rightarrow> int64 \<Rightarrow> int64 \<Rightarrow> DownloadState \<Rightarrow> DownloadDangerType \<Rightarrow>
     DownloadInterruptReason \<Rightarrow> bool \<Rightarrow> Item" where
  "DownloadItemImpl_history cur tgt received_b total_b st dt interrupt_reason was_opened =
     (let s0 = \<lparr>is_save_package_download = False, request_handle = None,
                download_file = False, current_path = cur, target_path = tgt,
                target_disposition = TARGET_DISPOSITION_OVERWRITE, forced_file_path = [],
                display_name = [], total_bytes = total_b, received_bytes = received_b,
                bytes_per_sec = 0, last_reason = interrupt_reason,
                state = ExternalToInternalState st, danger_type = dt, is_paused = False,
                auto_resume_count = 0, open_when_complete = False,
                file_externally_removed = False, auto_opened = False, is_temporary = False,
                all_data_saved = False, opened = was_opened, delegate_delayed_complete = False,
                hash = [], hash_state = [], last_modified_time = [], etag = [],
                effects = []\<rparr>;
          s1 = (if state s0 = IN_PROGRESS_INTERNAL then s0\<lparr>state := CANCELLED_INTERNAL\<rparr>
                else s0);
          s2 = (if state s1 = COMPLETE_INTERNAL then s1\<lparr>all_data_saved := True\<rparr> else s1)
      in Init s2)"

text \<open>
  The constructor for a regular download, from the fields of \<^verbatim>\<open>DownloadCreateInfo\<close> that
  reach the modelled fields: the total size, the forced file path of the save info and
  its \<^verbatim>\<open>prompt_for_save_location\<close>.
\<close>

definition DownloadItemImpl_active :: "int64 \<Rightarrow> FilePath \<Rightarrow> bool \<Rightarrow> Item" where
  "DownloadItemImpl_active total_b file_path prompt_for_save_location =
     Init \<lparr>is_save_package_download = False, request_handle = None,
           download_file = False, current_path = [], target_path = [],
           target_disposition =
             (if prompt_for_save_location then TARGET_DISPOSITION_PROMPT
              else TARGET_DISPOSITION_OVERWRITE),
           forced_file_path = file_path,
           display_name = [], total_bytes = total_b, received_bytes = 0,
           bytes_per_sec = 0, last_reason = DOWNLOAD_INTERRUPT_REASON_NONE,
           state = IN_PROGRESS_INTERNAL, danger_type = DOWNLOAD_DANGER_TYPE_NOT_DANGEROUS,
           is_paused = False, auto_resume_count = 0, open_when_complete = False,
           file_externally_removed = False, auto_opened = False,
           is_temporary = (file_path \<noteq> []),
           all_data_saved = False, opened = False, delegate_delayed_complete = False,
           hash = [], hash_state = [], last_modified_time = [], etag = [],
           effects = []\<rparr>"

text \<open>The constructor for the "Save Page As..." feature.\<close>

definition DownloadItemImpl_save_package :: "FilePath \<Rightarrow> Item" where
  "DownloadItemImpl_save_package path =
     Init \<lparr>is_save_package_download = True,
           request_handle = Some NullDownloadRequestHandle,
           download_file = False, current_path = path, target_path = path,
           target_disposition = TARGET_DISPOSITION_OVERWRITE, forced_file_path = [],
           display_name = [], total_bytes = 0, received_bytes = 0,
           bytes_per_sec = 0, last_reason = DOWNLOAD_INTERRUPT_REASON_NONE,
           state = IN_PROGRESS_INTERNAL, danger_type = DOWNLOAD_DANGER_TYPE_NOT_DANGEROUS,
           is_paused = False, auto_resume_count = 0, open_when_complete = False,
           file_externally_removed = False, auto_opened = False, is_temporary = False,
           all_data_saved = False, opened = False, delegate_delayed_complete = False,
           hash = [], hash_state = [], last_modified_time = [], etag = [],
           effects = []\<rparr>"

subsection \<open>Every method as an event\<close>

datatype Event =
    Call_DangerousDownloadValidated
  | Call_Pause
  | Call_Resume
  | Call_Cancel bool
  | Call_Delete DeleteReason
  | Call_Remove
  | Call_OpenDownload
  | Call_ShowDownloadInShell
  | Call_OnContentCheckCompleted DownloadDangerType
  | Call_SetOpenWhenComplete bool
  | Call_SetIsTemporary bool
  | Call_SetOpened bool
  | Call_SetDisplayName FilePath
  | Call_ResumeInterruptedDownload
  | Call_OnDownloadedFileRemoved
  | Call_SetTotalBytes int64
  | Call_UpdateProgress int64 int64 string
  | Call_OnAllDataSaved string
  | Call_MarkAsComplete
  | Call_DestinationUpdate int64 int64 string
  | Call_DestinationError DownloadInterruptReason
  | Call_DestinationCompleted string
  | Call_Start bool "RequestHandle option"
  | Call_OnDownloadFileInitialized DownloadInterruptReason
  | Call_OnDownloadTargetDetermined FilePath TargetDisposition DownloadDangerType FilePath
  | Call_OnDownloadRenamedToIntermediateName DownloadInterruptReason FilePath
  | Call_MaybeCompleteDownload
  | Call_OnDownloadCompleting
  | Call_OnDownloadRenamedToFinalName DownloadInterruptReason FilePath
  | Call_DelayedDownloadOpened bool
  | Call_Completed
  | Call_Interrupt DownloadInterruptReason
  | Call_CancelDownloadFile
  | Call_TransitionTo DownloadInternalState
  | Call_SetDangerType DownloadDangerType
  | Call_SetFullPath FilePath
  | Call_AutoResumeIfValid
  | Call_UpdateObservers

fun step :: "Environment \<Rightarrow> Event \<Rightarrow> Item \<Rightarrow> Failure + Item" where
  "step env Call_DangerousDownloadValidated s = DangerousDownloadValidated env s"
| "step env Call_Pause s = Pause s"
| "step env Call_Resume s = Resume env s"
| "step env (Call_Cancel u) s = Cancel u s"
| "step env (Call_Delete r) s = Delete r s"
| "step env Call_Remove s = Remove s"
| "step env Call_OpenDownload s = Inr (OpenDownload s)"
| "step env Call_ShowDownloadInShell s = Inr (ShowDownloadInShell s)"
| "step env (Call_OnContentCheckCompleted dt) s = OnContentCheckCompleted env dt s"
| "step env (Call_SetOpenWhenComplete b) s = Inr (SetOpenWhenComplete b s)"
| "step env (Call_SetIsTemporary b) s = Inr (SetIsTemporary b s)"
| "step env (Call_SetOpened b) s = Inr (SetOpened b s)"
| "step env (Call_SetDisplayName n) s = Inr (SetDisplayName n s)"
| "step env Call_ResumeInterruptedDownload s = ResumeInterruptedDownload env s"
| "step env Call_OnDownloadedFileRemoved s = Inr (OnDownloadedFileRemoved s)"
| "step env (Call_SetTotalBytes n) s = Inr (SetTotalBytes n s)"
| "step env (Call_UpdateProgress b r h) s = Inr (UpdateProgress b r h s)"
| "step env (Call_OnAllDataSaved h) s = OnAllDataSaved env h s"
| "step env Call_MarkAsComplete s = MarkAsComplete env s"
| "step env (Call_DestinationUpdate b r h) s = Inr (DestinationUpdate b r h s)"
| "step env (Call_DestinationError r) s = DestinationError env r s"
| "step env (Call_DestinationCompleted h) s = DestinationCompleted env h s"
| "step env (Call_Start f r) s = Start env f r s"
| "step env (Call_OnDownloadFileInitialized r) s = OnDownloadFileInitialized env r s"
| "step env (Call_OnDownloadTargetDetermined tp d dt ip) s =
     OnDownloadTargetDetermined env tp d dt ip s"
| "step env (Call_OnDownloadRenamedToIntermediateName r p) s =
     OnDownloadRenamedToIntermediateName env r p s"
| "step env Call_MaybeCompleteDownload s = MaybeCompleteDownload env s"
| "step env Call_OnDownloadCompleting s = OnDownloadCompleting env s"
| "step env (Call_OnDownloadRenamedToFinalName r p) s =
     OnDownloadRenamedToFinalName env r p s"
| "step env (Call_DelayedDownloadOpened b) s = DelayedDownloadOpened env b s"
| "step env Call_Completed s = Completed env s"
| "step env (Call_Interrupt r) s = Interrupt env r s"
| "step env Call_CancelDownloadFile s = Inr (CancelDownloadFile s)"
| "step env (Call_TransitionTo st) s = Inr (TransitionTo st s)"
| "step env (Call_SetDangerType dt) s = Inr (SetDangerType dt s)"
| "step env (Call_SetFullPath p) s = SetFullPath env p s"
| "step env Call_AutoResumeIfValid s = AutoResumeIfValid env s"
| "step env Call_UpdateObservers s = Inr (UpdateObservers s)"

text \<open>
  A history of the item: the calls made on it, each with the surroundings it ran in;
  it stops at the first failure.
\<close>

fun run :: "(Environment \<times> Event) list \<Rightarrow> Item \<Rightarrow> Failure + Item" where
  "run [] s = Inr s"
| "run ((env, ev) # rest) s = and_then (step env ev s) (run rest)"

subsection \<open>The decision table of the specification\<close>

text \<open>
  The table of the specification, row by row: the mode as a function of the interrupt
  reason, of \<open>no_file\<close> (there is no intermediate file) and of \<open>user\<close> (the retry cap is
  reached or the item is paused). It is compared with \<open>GetResumeMode\<close> below.
\<close>

fun resume_mode_table :: "DownloadInterruptReason \<Rightarrow> bool \<Rightarrow> bool \<Rightarrow> ResumeMode" where
  "resume_mode_table DOWNLOAD_INTERRUPT_REASON_FILE_TRANSIENT_ERROR no_file user =
     (if no_file then (if user then RESUME_MODE_USER_RESTART else RESUME_MODE_IMMEDIATE_RESTART)
      else (if user then RESUME_MODE_USER_CONTINUE else RESUME_MODE_IMMEDIATE_CONTINUE))"
| "resume_mode_table DOWNLOAD_INTERRUPT_REASON_NETWORK_TIMEOUT no_file user =
     (if no_file then (if user then RESUME_MODE_USER_RESTART else RESUME_MODE_IMMEDIATE_RESTART)
      else (if user then RESUME_MODE_USER_CONTINUE else RESUME_MODE_IMMEDIATE_CONTINUE))"
| "resume_mode_table DOWNLOAD_INTERRUPT_REASON_SERVER_PRECONDITION no_file user =
     (if user then RESUME_MODE_USER_RESTART else RESUME_MODE_IMMEDIATE_RESTART)"
| "resume_mode_table DOWNLOAD_INTERRUPT_REASON_SERVER_NO_RANGE no_file user =
     (if user then RESUME_MODE_USER_RESTART else RESUME_MODE_IMMEDIATE_RESTART)"
| "resume_mode_table DOWNLOAD_INTERRUPT_REASON_FILE_TOO_SHORT no_file user =
     (if user then RESUME_MODE_USER_RESTART else RESUME_MODE_IMMEDIATE_RESTART)"
| "resume_mode_table DOWNLOAD_INTERRUPT_REASON_NETWORK_FAILED no_file user =
     (if no_file then RESUME_MODE_USER_RESTART else RESUME_MODE_USER_CONTINUE)"
| "resume_mode_table DOWNLOAD_INTERRUPT_REASON_NETWORK_DISCONNECTED no_file user =
     (if no_file then RESUME_MODE_USER_RESTART else RESUME_MODE_USER_CONTINUE)"
| "resume_mode_table DOWNLOAD_INTERRUPT_REASON_NETWORK_SERVER_DOWN no_file user =
     (if no_file then RESUME_MODE_USER_RESTART else RESUME_MODE_USER_CONTINUE)"
| "resume_mode_table DOWNLOAD_INTERRUPT_REASON_SERVER_FAILED no_file user =
     (if no_file then RESUME_MODE_USER_RESTART else RESUME_MODE_USER_CONTINUE)"
| "resume_mode_table DOWNLOAD_INTERRUPT_REASON_USER_SHUTDOWN no_file user =
     (if no_file then RESUME_MODE_USER_RESTART else RESUME_MODE_USER_CONTINUE)"
| "resume_mode_table DOWNLOAD_INTERRUPT_REASON_CRASH no_file user =
     (if no_file then RESUME_MODE_USER_RESTART else RESUME_MODE_USER_CONTINUE)"
| "resume_mode_table DOWNLOAD_INTERRUPT_REASON_FILE_FAILED no_file user =
     RESUME_MODE_USER_RESTART"
| "resume_mode_table DOWNLOAD_INTERRUPT_REASON_FILE_ACCESS_DENIED no_file user =
     RESUME_MODE_USER_RESTART"
| "resume_mode_table DOWNLOAD_INTERRUPT_REASON_FILE_NO_SPACE no_file user =
     RESUME_MODE_USER_RESTART"
| "resume_mode_table DOWNLOAD_INTERRUPT_REASON_FILE_NAME_TOO_LONG no_file user =
     RESUME_MODE_USER_RESTART"
| "resume_mode_table DOWNLOAD_INTERRUPT_REASON_FILE_TOO_LARGE no_file user =
     RESUME_MODE_USER_RESTART"
| "resume_mode_table DOWNLOAD_INTERRUPT_REASON_NONE no_file user = RESUME_MODE_INVALID"
| "resume_mode_table DOWNLOAD_INTERRUPT_REASON_FILE_VIRUS_INFECTED no_file user =
     RESUME_MODE_INVALID"
| "resume_mode_table DOWNLOAD_INTERRUPT_REASON_SERVER_BAD_CONTENT no_file user =
     RESUME_MODE_INVALID"
| "resume_mode_table DOWNLOAD_INTERRUPT_REASON_USER_CANCELED no_file user =
     RESUME_MODE_INVALID"
| "resume_mode_table DOWNLOAD_INTERRUPT_REASON_FILE_BLOCKED no_file user =
     RESUME_MODE_INVALID"
| "resume_mode_table DOWNLOAD_INTERRUPT_REASON_FILE_SECURITY_CHECK_FAILED no_file user =
     RESUME_MODE_INVALID"

subsection \<open>Concrete surroundings, items and histories\<close>

text \<open>
  A stand-in for \<^verbatim>\<open>DirName\<close> on the examples: the part of a path before its last slash.
\<close>

definition parent_directory :: "FilePath \<Rightarrow> FilePath" where
  "parent_directory p = rev (drop 1 (dropWhile (\<lambda>c. c \<noteq> CHR ''/'') (rev p)))"

definition debug_build :: Environment where
  "debug_build =
     \<lparr>dcheck_is_on = True, os_win = False, enable_download_resumption = True,
      web_contents_alive = True, should_complete_download = True,
      should_open_download = False, should_open_file_based_on_extension = False,
      DirName = parent_directory\<rparr>"

definition release_build :: Environment where
  "release_build = debug_build\<lparr>dcheck_is_on := False\<rparr>"

definition fresh_item :: Item where
  "fresh_item = DownloadItemImpl_active 1000 [] False"

text \<open>The fresh item once \<^verbatim>\<open>Start\<close> has handed it a file and a live request.\<close>

definition started_item :: Item where
  "started_item =
     fresh_item\<lparr>download_file := True, request_handle := Some LiveRequestHandle,
                effects := [PostDownloadFileInitialize]\<rparr>"

definition history_interrupted_item :: Item where
  "history_interrupted_item =
     DownloadItemImpl_history ''/d/a.crdownload'' ''/d/a.txt'' 10 100 INTERRUPTED
       DOWNLOAD_DANGER_TYPE_NOT_DANGEROUS DOWNLOAD_INTERRUPT_REASON_NETWORK_TIMEOUT False"

definition saved_page_item :: Item where
  "saved_page_item = DownloadItemImpl_save_package ''/d/page.html''"

text \<open>
  One round of the retry scenario: a network timeout, then the restarted request reaches
  \<^verbatim>\<open>Start\<close> again. \<open>awaiting_timeout n\<close> describes the item between rounds: in progress on
  a live request, with no intermediate path, not paused, after \<open>n\<close> automatic resumptions.
\<close>

definition timeout_then_restart :: "Environment \<Rightarrow> (Environment \<times> Event) list" where
  "timeout_then_restart env =
     [(env, Call_Interrupt DOWNLOAD_INTERRUPT_REASON_NETWORK_TIMEOUT),
      (env, Call_Start True (Some LiveRequestHandle))]"

definition awaiting_timeout :: "nat \<Rightarrow> Item \<Rightarrow> bool" where
  "awaiting_timeout n s \<longleftrightarrow>
     state s = IN_PROGRESS_INTERNAL \<and> current_path s = [] \<and> \<not> is_paused s \<and>
     request_handle s = Some LiveRequestHandle \<and> download_file s \<and>
     \<not> is_save_package_download s \<and> auto_resume_count s = of_nat n"

text \<open>The started item once all its data has been saved with hash \<open>''h''\<close>.\<close>

definition saved_item :: Item where
  "saved_item =
     started_item\<lparr>all_data_saved := True, hash := ''h'',
                  effects := [PostDownloadFileInitialize, OnDownloadUpdated]\<rparr>"

text \<open>
  A started item whose data is all saved, renamed to its intermediate name in the target
  directory, and classified as a dangerous file.
\<close>

definition dangerous_item :: Item where
  "dangerous_item =
     started_item\<lparr>current_path := ''/d/a.txt.crdownload'', target_path := ''/d/a.txt'',
                  danger_type := DOWNLOAD_DANGER_TYPE_DANGEROUS_FILE,
                  all_data_saved := True, hash := ''h''\<rparr>"

text \<open>A download is started, paused by the user, then cancelled by the user.\<close>

definition pause_then_cancel :: "Environment \<Rightarrow> (Environment \<times> Event) list" where
  "pause_then_cancel env =
     [(env, Call_Start True (Some LiveRequestHandle)),
      (env, Call_Pause),
      (env, Call_Cancel True)]"

definition paused_cancelled_item :: Item where
  "paused_cancelled_item =
     started_item\<lparr>is_paused := True,
                  last_reason := DOWNLOAD_INTERRUPT_REASON_USER_CANCELED,
                  download_file := False, state := CANCELLED_INTERNAL,
                  effects := [PostDownloadFileInitialize, PauseRequest, OnDownloadUpdated,
                              PostDownloadFileCancel, CancelRequest, OnDownloadUpdated]\<rparr>"

text \<open>
  A download runs through the whole cascade: started, file initialized, target
  determined, renamed to the intermediate name, 1000 bytes received, all data saved,
  renamed to the final name; the delegate then defers the opening, so the item waits in
  COMPLETING.
\<close>

definition completion_cascade :: "(Environment \<times> Event) list" where
  "completion_cascade =
     [(debug_build, Call_Start True (Some LiveRequestHandle)),
      (debug_build, Call_OnDownloadFileInitialized DOWNLOAD_INTERRUPT_REASON_NONE),
      (debug_build, Call_OnDownloadTargetDetermined ''/d/a.txt'' TARGET_DISPOSITION_OVERWRITE
         DOWNLOAD_DANGER_TYPE_NOT_DANGEROUS ''/d/a.txt.crdownload''),
      (debug_build, Call_OnDownloadRenamedToIntermediateName DOWNLOAD_INTERRUPT_REASON_NONE
         ''/d/a.txt.crdownload''),
      (debug_build, Call_DestinationUpdate 1000 50 ''hs''),
      (debug_build, Call_DestinationCompleted ''h''),
      (debug_build, Call_OnDownloadRenamedToFinalName DOWNLOAD_INTERRUPT_REASON_NONE
         ''/d/a.txt'')]"

definition completing_item :: Item where
  "completing_item =
     started_item\<lparr>download_file := False, current_path := ''/d/a.txt'',
        target_path := ''/d/a.txt'', received_bytes := 1000, bytes_per_sec := 50,
        state := COMPLETING_INTERNAL, all_data_saved := True,
        delegate_delayed_complete := True, hash := ''h'',
        effects :=
          [PostDownloadFileInitialize, DelegateDetermineDownloadTarget,
           PostRenameAndUniquify ''/d/a.txt.crdownload'', OnDownloadUpdated,
           DelegateShowDownloadInBrowser, OnDownloadUpdated,
           OnDownloadUpdated, DelegateShouldCompleteDownload,
           PostRenameAndAnnotate ''/d/a.txt'', OnDownloadUpdated,
           PostDownloadFileDetach True, DelegateShouldOpenDownload]\<rparr>"

text \<open>
  \<open>handles_kept s s'\<close>: from \<open>s\<close> to \<open>s'\<close> the request handle and the kind of the item
  are the same and no download file has appeared. \<open>handles_consistent s\<close>: the item holds
  a request handle, and if it is a save-package item it holds no download file. A
  save-package item is built this way, a regular one is so from \<open>Start\<close> on.
\<close>

definition handles_kept :: "Item \<Rightarrow> Item \<Rightarrow> bool" where
  "handles_kept s s' \<longleftrightarrow>
     request_handle s' = request_handle s \<and>
     is_save_package_download s' = is_save_package_download s \<and>
     (download_file s' \<longrightarrow> download_file s)"

definition handles_consistent :: "Item \<Rightarrow> bool" where
  "handles_consistent s \<longleftrightarrow>
     request_handle s \<noteq> None \<and> (is_save_package_download s \<longrightarrow> \<not> download_file s)"

section \<open>Properties\<close>

subsection \<open>Auxiliary facts\<close>

lemma IsInterrupted_iff: "IsInterrupted s \<longleftrightarrow> state s = INTERRUPTED_INTERNAL"
  by (cases "state s") (simp_all add: IsInterrupted_def)

lemma IsInProgress_iff:
  "IsInProgress s \<longleftrightarrow> state s = IN_PROGRESS_INTERNAL \<or> state s = COMPLETING_INTERNAL"
  by (cases "state s") (simp_all add: IsInProgress_def)

lemma GetState_IN_PROGRESS_iff:
  "GetState s = IN_PROGRESS \<longleftrightarrow>
   state s = IN_PROGRESS_INTERNAL \<or> state s = COMPLETING_INTERNAL"
  by (cases "state s") (simp_all add: GetState_def)

lemma cap_reached_iff: "kMaxAutoResumeAttempts <=s c \<longleftrightarrow> 5 \<le> sint c"
  by (simp add: kMaxAutoResumeAttempts_def word_sle_eq)

lemma GetResumeMode_not_interrupted:
  "state s \<noteq> INTERRUPTED_INTERNAL \<Longrightarrow> GetResumeMode s = RESUME_MODE_INVALID"
  by (simp add: GetResumeMode_def IsInterrupted_iff)

lemma GetResumeMode_cong:
  "state s' = state s \<Longrightarrow> current_path s' = current_path s \<Longrightarrow>
   auto_resume_count s' = auto_resume_count s \<Longrightarrow> is_paused s' = is_paused s \<Longrightarrow>
   last_reason s' = last_reason s \<Longrightarrow> GetResumeMode s' = GetResumeMode s"
  by (simp add: GetResumeMode_def IsInterrupted_def)

lemma no_download_file: "\<not> download_file s \<Longrightarrow> s\<lparr>download_file := False\<rparr> = s"
  by (cases s) simp

lemma keep_download_file: "download_file s \<Longrightarrow> s\<lparr>download_file := True\<rparr> = s"
  by (cases s) simp

lemma and_then_Inr_iff:
  "and_then r f = Inr y \<longleftrightarrow> (\<exists>x. r = Inr x \<and> f x = Inr y)"
  by (cases r) (simp_all add: and_then_def)

lemma run_append: "run (xs @ ys) s = and_then (run xs s) (run ys)"
  by (induction xs arbitrary: s) (auto simp add: and_then_def split: sum.splits)

lemma Start_fresh_item:
  "Start env True (Some LiveRequestHandle) fresh_item = Inr started_item"
  by (simp add: Start_def dcheck_fails_def Let_def TransitionTo_def emit_def fresh_item_def
      started_item_def DownloadItemImpl_active_def Init_def)

subsection \<open>The resume mode\<close>

text \<open>
  C1: for every interrupted item the resume mode returned by \<open>GetResumeMode\<close> is the entry
  of the specification's decision table for the last interrupt reason, for whether the
  current path is empty, and for whether the auto-resume count has reached the cap of 5 or
  the item is paused.
\<close>

theorem GetResumeMode_decision_table:
  "state s = INTERRUPTED_INTERNAL \<Longrightarrow>
   GetResumeMode s =
     resume_mode_table (last_reason s) (current_path s = [])
       (5 \<le> sint (auto_resume_count s) \<or> is_paused s)"
  by (cases "last_reason s")
     (simp_all add: GetResumeMode_def IsInterrupted_iff cap_reached_iff)

theorem GetResumeMode_decision_table_witness:
  "state history_interrupted_item = INTERRUPTED_INTERNAL \<and>
   GetResumeMode history_interrupted_item = RESUME_MODE_IMMEDIATE_CONTINUE"
  using GetResumeMode_decision_table [of history_interrupted_item]
  by (simp add: history_interrupted_item_def DownloadItemImpl_history_def Init_def Let_def)

text \<open>
  C9: for every item whose state is not INTERRUPTED, \<open>GetResumeMode\<close> returns
  \<open>RESUME_MODE_INVALID\<close>, whatever the last interrupt reason, the current path, the
  auto-resume count and the paused flag are. So the mode is not a function of these four
  inputs alone: putting any other state into an item leaves the four inputs as they are
  and makes the mode \<open>RESUME_MODE_INVALID\<close>, which differs from the mode of every
  interrupted item that can be resumed; and there are two items that agree on the four
  inputs and have different modes.
\<close>

theorem GetResumeMode_invalid_unless_interrupted:
  "(state s \<noteq> INTERRUPTED_INTERNAL \<longrightarrow> GetResumeMode s = RESUME_MODE_INVALID) \<and>
   (st \<noteq> INTERRUPTED_INTERNAL \<longrightarrow>
      GetResumeMode (s\<lparr>state := st\<rparr>) = RESUME_MODE_INVALID \<and>
      last_reason (s\<lparr>state := st\<rparr>) = last_reason s \<and>
      current_path (s\<lparr>state := st\<rparr>) = current_path s \<and>
      auto_resume_count (s\<lparr>state := st\<rparr>) = auto_resume_count s \<and>
      is_paused (s\<lparr>state := st\<rparr>) = is_paused s) \<and>
   (GetResumeMode s \<noteq> RESUME_MODE_INVALID \<and> st \<noteq> INTERRUPTED_INTERNAL \<longrightarrow>
      state s = INTERRUPTED_INTERNAL \<and>
      GetResumeMode (s\<lparr>state := st\<rparr>) \<noteq> GetResumeMode s) \<and>
   (\<exists>a b. last_reason a = last_reason b \<and> current_path a = current_path b \<and>
          auto_resume_count a = auto_resume_count b \<and> is_paused a = is_paused b \<and>
          GetResumeMode a \<noteq> GetResumeMode b)"
proof (intro conjI impI)
  assume "state s \<noteq> INTERRUPTED_INTERNAL"
  then show "GetResumeMode s = RESUME_MODE_INVALID"
    by (simp add: GetResumeMode_def IsInterrupted_iff)
next
  assume "st \<noteq> INTERRUPTED_INTERNAL"
  then show "GetResumeMode (s\<lparr>state := st\<rparr>) = RESUME_MODE_INVALID"
    by (simp add: GetResumeMode_def IsInterrupted_iff)
next
  assume a: "GetResumeMode s \<noteq> RESUME_MODE_INVALID \<and> st \<noteq> INTERRUPTED_INTERNAL"
  then show "state s = INTERRUPTED_INTERNAL"
    using GetResumeMode_not_interrupted by blast
  from a have "GetResumeMode (s\<lparr>state := st\<rparr>) = RESUME_MODE_INVALID"
    by (simp add: GetResumeMode_def IsInterrupted_iff)
  with a show "GetResumeMode (s\<lparr>state := st\<rparr>) \<noteq> GetResumeMode s" by auto
next
  have "GetResumeMode history_interrupted_item = RESUME_MODE_IMMEDIATE_CONTINUE"
    by (simp add: history_interrupted_item_def DownloadItemImpl_history_def Init_def Let_def
        GetResumeMode_def IsInterrupted_def cap_reached_iff)
  moreover have "GetResumeMode (history_interrupted_item\<lparr>state := CANCELLED_INTERNAL\<rparr>)
      = RESUME_MODE_INVALID"
    by (simp add: GetResumeMode_def IsInterrupted_iff)
  ultimately show "\<exists>a b. last_reason a = last_reason b \<and> current_path a = current_path b \<and>
          auto_resume_count a = auto_resume_count b \<and> is_paused a = is_paused b \<and>
          GetResumeMode a \<noteq> GetResumeMode b"
    by (intro exI [of _ history_interrupted_item]
          exI [of _ "history_interrupted_item\<lparr>state := CANCELLED_INTERNAL\<rparr>"]) simp
qed simp_all

theorem GetResumeMode_invalid_unless_interrupted_witness:
  "state (started_item\<lparr>last_reason := DOWNLOAD_INTERRUPT_REASON_NETWORK_TIMEOUT\<rparr>)
     \<noteq> INTERRUPTED_INTERNAL \<and>
   GetResumeMode (started_item\<lparr>last_reason := DOWNLOAD_INTERRUPT_REASON_NETWORK_TIMEOUT\<rparr>)
     = RESUME_MODE_INVALID \<and>
   GetResumeMode history_interrupted_item = RESUME_MODE_IMMEDIATE_CONTINUE \<and>
   CANCELLED_INTERNAL \<noteq> INTERRUPTED_INTERNAL \<and>
   last_reason (history_interrupted_item\<lparr>state := CANCELLED_INTERNAL\<rparr>)
     = last_reason history_interrupted_item \<and>
   GetResumeMode (history_interrupted_item\<lparr>state := CANCELLED_INTERNAL\<rparr>)
     = RESUME_MODE_INVALID \<and>
   GetResumeMode (history_interrupted_item\<lparr>state := CANCELLED_INTERNAL\<rparr>)
     \<noteq> GetResumeMode history_interrupted_item"
proof -
  note a = GetResumeMode_invalid_unless_interrupted
      [of "started_item\<lparr>last_reason := DOWNLOAD_INTERRUPT_REASON_NETWORK_TIMEOUT\<rparr>"
          CANCELLED_INTERNAL]
  note b = GetResumeMode_invalid_unless_interrupted
      [of history_interrupted_item CANCELLED_INTERNAL]
  have f: "state (started_item\<lparr>last_reason := DOWNLOAD_INTERRUPT_REASON_NETWORK_TIMEOUT\<rparr>)
      \<noteq> INTERRUPTED_INTERNAL"
    by (simp add: started_item_def fresh_item_def DownloadItemImpl_active_def Init_def)
  have h: "GetResumeMode history_interrupted_item = RESUME_MODE_IMMEDIATE_CONTINUE"
    by (simp add: history_interrupted_item_def DownloadItemImpl_history_def Init_def Let_def
        GetResumeMode_def IsInterrupted_def cap_reached_iff)
  from a f have 1:
    "GetResumeMode (started_item\<lparr>last_reason := DOWNLOAD_INTERRUPT_REASON_NETWORK_TIMEOUT\<rparr>)
       = RESUME_MODE_INVALID" by blast
  from b have 2: "GetResumeMode (history_interrupted_item\<lparr>state := CANCELLED_INTERNAL\<rparr>)
       = RESUME_MODE_INVALID" by simp
  from b h have 3: "GetResumeMode (history_interrupted_item\<lparr>state := CANCELLED_INTERNAL\<rparr>)
       \<noteq> GetResumeMode history_interrupted_item" by simp
  from f h 1 2 3 show ?thesis by simp
qed

subsection \<open>The time remaining\<close>

text \<open>
  C10: \<open>TimeRemaining\<close> returns false and leaves its output parameter as it was whenever
  the total size is at most 0 or the current speed is 0, so the division by the speed runs
  only with a speed other than 0; \<open>CurrentSpeed\<close> is 0 for a paused item whatever
  \<open>bytes_per_sec\<close> holds, so \<open>TimeRemaining\<close> returns false for every paused item.
\<close>

theorem TimeRemaining_guarded:
  "(total_bytes s <=s 0 \<or> CurrentSpeed s = 0 \<longrightarrow> TimeRemaining s r = (False, r)) \<and>
   (fst (TimeRemaining s r) \<longrightarrow> CurrentSpeed s \<noteq> 0 \<and> \<not> total_bytes s <=s 0) \<and>
   (is_paused s \<longrightarrow> CurrentSpeed s = 0 \<and> TimeRemaining s r = (False, r))"
  by (simp add: TimeRemaining_def CurrentSpeed_def Let_def)

theorem TimeRemaining_guarded_witness:
  "is_paused (started_item\<lparr>is_paused := True, bytes_per_sec := 100\<rparr>) \<and>
   bytes_per_sec (started_item\<lparr>is_paused := True, bytes_per_sec := 100\<rparr>) = 100 \<and>
   CurrentSpeed (started_item\<lparr>is_paused := True, bytes_per_sec := 100\<rparr>) = 0 \<and>
   TimeRemaining (started_item\<lparr>is_paused := True, bytes_per_sec := 100\<rparr>) (FromSeconds 9)
     = (False, FromSeconds 9)"
  using TimeRemaining_guarded
          [of "started_item\<lparr>is_paused := True, bytes_per_sec := 100\<rparr>" "FromSeconds 9"]
  by simp

lemma TimeRemaining_running_example:
  "TimeRemaining (started_item\<lparr>received_bytes := 500, bytes_per_sec := 100\<rparr>) (FromSeconds 9)
     = (True, FromSeconds 5)"
  by (simp add: TimeRemaining_def CurrentSpeed_def Let_def started_item_def fresh_item_def
      DownloadItemImpl_active_def Init_def word_sle_eq signed_divide_int_def)

subsection \<open>Interrupt\<close>

lemma ResumeInterruptedDownload_interrupted:
  assumes "state s = INTERRUPTED_INTERNAL"
  shows "\<exists>s'. ResumeInterruptedDownload env s = Inr s' \<and> state s' = state s \<and>
           last_reason s' = last_reason s \<and> auto_resume_count s' = auto_resume_count s \<and>
           download_file s' = download_file s \<and> request_handle s' = request_handle s \<and>
           current_path s' = current_path s \<and>
           is_save_package_download s' = is_save_package_download s \<and>
           effects s' = effects s @
             (if enable_download_resumption env \<and> GetWebContents env s
              then [DelegateResumeInterruptedDownload (current_path s') (received_bytes s')
                      (hash_state s') (last_modified_time s') (etag s')]
              else [])"
  using assms
  by (simp add: ResumeInterruptedDownload_def dcheck_fails_def IsInterrupted_iff Let_def emit_def)

lemma AutoResumeIfValid_interrupted:
  assumes "state s = INTERRUPTED_INTERNAL"
  shows "\<exists>s'. AutoResumeIfValid env s = Inr s' \<and> state s' = state s \<and>
           last_reason s' = last_reason s \<and>
           download_file s' = download_file s \<and> request_handle s' = request_handle s \<and>
           current_path s' = current_path s \<and>
           is_save_package_download s' = is_save_package_download s \<and>
           (\<exists>rest. effects s' = effects s @ rest)"
proof (cases "GetResumeMode s = RESUME_MODE_IMMEDIATE_RESTART \<or>
              GetResumeMode s = RESUME_MODE_IMMEDIATE_CONTINUE")
  case False
  then show ?thesis by (simp add: AutoResumeIfValid_def Let_def)
next
  case True
  let ?t = "s\<lparr>auto_resume_count := auto_resume_count s + 1\<rparr>"
  have "state ?t = INTERRUPTED_INTERNAL" using assms by simp
  from ResumeInterruptedDownload_interrupted [OF this, of env]
  obtain s' where "ResumeInterruptedDownload env ?t = Inr s'" and "state s' = state ?t"
     "last_reason s' = last_reason ?t" "download_file s' = download_file ?t"
     "request_handle s' = request_handle ?t" "current_path s' = current_path ?t"
     "is_save_package_download s' = is_save_package_download ?t"
     "\<exists>rest. effects s' = effects ?t @ rest"
    by auto
  with True show ?thesis by (auto simp add: AutoResumeIfValid_def Let_def)
qed

text \<open>
  What \<open>Interrupt\<close> has done to an item in progress when it reaches \<open>AutoResumeIfValid\<close>.
\<close>

lemma Interrupt_in_progress:
  assumes "state s = IN_PROGRESS_INTERNAL" and "request_handle s \<noteq> None"
    and "m = GetResumeMode (s\<lparr>last_reason := reason, state := INTERRUPTED_INTERNAL\<rparr>)"
    and "restart \<longleftrightarrow> m = RESUME_MODE_IMMEDIATE_RESTART \<or> m = RESUME_MODE_USER_RESTART"
  shows "Interrupt env reason s =
     AutoResumeIfValid env
       (s\<lparr>last_reason := reason, state := INTERRUPTED_INTERNAL,
          download_file := (restart \<and> is_save_package_download s \<and> download_file s),
          effects := effects s @ OnDownloadUpdated #
            (if restart
             then (if \<not> is_save_package_download s \<and> download_file s
                   then [PostDownloadFileCancel] else [])
             else [PostDownloadFileDetach (download_file s)]) @ [CancelRequest]\<rparr>)"
proof -
  define s1 where "s1 = TransitionTo INTERRUPTED_INTERNAL (s\<lparr>last_reason := reason\<rparr>)"
  have s1: "s1 = s\<lparr>last_reason := reason, state := INTERRUPTED_INTERNAL,
                   effects := effects s @ [OnDownloadUpdated]\<rparr>"
    using assms(1) by (simp add: s1_def TransitionTo_def Let_def UpdateObservers_def emit_def)
  have m: "GetResumeMode s1 = m"
    unfolding assms(3) by (rule GetResumeMode_cong) (simp_all add: s1)
  from assms(2) obtain h where h: "request_handle s = Some h" by auto
  show ?thesis
    using assms(1,4) h m
    by (auto simp add: Interrupt_def Let_def s1_def [symmetric] and_then_def
        request_handle_call_def)
       (simp_all add: s1 CancelDownloadFile_def emit_def no_download_file)
qed

lemma ResumeInterruptedDownload_state:
  "ResumeInterruptedDownload env s = Inr s' \<Longrightarrow> state s' = state s"
  by (auto simp add: ResumeInterruptedDownload_def Let_def emit_def split: if_splits)

lemma AutoResumeIfValid_state:
  "AutoResumeIfValid env s = Inr s' \<Longrightarrow> state s' = state s"
  by (auto simp add: AutoResumeIfValid_def Let_def split: if_splits
      dest!: ResumeInterruptedDownload_state)

lemma Interrupt_state:
  "Interrupt env reason s = Inr s' \<Longrightarrow> state s' \<noteq> IN_PROGRESS_INTERNAL"
  by (auto simp add: Interrupt_def Let_def and_then_Inr_iff request_handle_call_def
      TransitionTo_def UpdateObservers_def CancelDownloadFile_def emit_def
      split: if_splits option.splits dest!: AutoResumeIfValid_state)

text \<open>
  C2: \<open>Interrupt\<close> is a no-op when the internal state is not IN_PROGRESS, so the first
  interrupt wins: a second one right after it changes nothing. On an item in progress
  (one that holds a request handle and, if it is a save-package item, no download file:
  see \<open>run_consistent\<close> below) it records the reason, moves to INTERRUPTED and notifies
  the observers; then, if the resume mode computed at that point is \<open>IMMEDIATE_RESTART\<close> or
  \<open>USER_RESTART\<close>, it cancels the download file it holds, and otherwise detaches it; in
  both cases the item holds no download file afterwards and \<open>CancelRequest\<close> is called
  next. What follows in the trace (\<open>rest\<close>) is the automatic resumption, if any.
\<close>

theorem Interrupt_behaviour:
  "(state s \<noteq> IN_PROGRESS_INTERNAL \<longrightarrow> Interrupt env reason s = Inr s) \<and>
   and_then (Interrupt env reason s) (Interrupt env reason') = Interrupt env reason s \<and>
   (state s = IN_PROGRESS_INTERNAL \<and> request_handle s \<noteq> None \<and>
    (is_save_package_download s \<longrightarrow> \<not> download_file s) \<longrightarrow>
      (\<exists>s' rest. Interrupt env reason s = Inr s' \<and>
         last_reason s' = reason \<and> state s' = INTERRUPTED_INTERNAL \<and> \<not> download_file s' \<and>
         (let m = GetResumeMode (s\<lparr>last_reason := reason, state := INTERRUPTED_INTERNAL\<rparr>) in
          if m = RESUME_MODE_IMMEDIATE_RESTART \<or> m = RESUME_MODE_USER_RESTART
          then effects s' = effects s @ OnDownloadUpdated #
                 (if download_file s then [PostDownloadFileCancel] else []) @
                 CancelRequest # rest
          else effects s' = effects s @
                 [OnDownloadUpdated, PostDownloadFileDetach (download_file s), CancelRequest]
                 @ rest)))"
proof (intro conjI impI)
  assume "state s \<noteq> IN_PROGRESS_INTERNAL"
  then show "Interrupt env reason s = Inr s" by (simp add: Interrupt_def)
next
  show "and_then (Interrupt env reason s) (Interrupt env reason') = Interrupt env reason s"
  proof (cases "Interrupt env reason s")
    case (Inl e)
    then show ?thesis by (simp add: and_then_def)
  next
    case (Inr s')
    from Interrupt_state [OF this] have "Interrupt env reason' s' = Inr s'"
      by (simp add: Interrupt_def)
    with Inr show ?thesis by (simp add: and_then_def)
  qed
next
  assume a: "state s = IN_PROGRESS_INTERNAL \<and> request_handle s \<noteq> None \<and>
    (is_save_package_download s \<longrightarrow> \<not> download_file s)"
  define m where "m = GetResumeMode (s\<lparr>last_reason := reason, state := INTERRUPTED_INTERNAL\<rparr>)"
  define restart where
    "restart \<longleftrightarrow> m = RESUME_MODE_IMMEDIATE_RESTART \<or> m = RESUME_MODE_USER_RESTART"
  define s3 where "s3 = s\<lparr>last_reason := reason, state := INTERRUPTED_INTERNAL,
          download_file := (restart \<and> is_save_package_download s \<and> download_file s),
          effects := effects s @ OnDownloadUpdated #
            (if restart
             then (if \<not> is_save_package_download s \<and> download_file s
                   then [PostDownloadFileCancel] else [])
             else [PostDownloadFileDetach (download_file s)]) @ [CancelRequest]\<rparr>"
  have i: "Interrupt env reason s = AutoResumeIfValid env s3"
    unfolding s3_def using a by (intro Interrupt_in_progress [OF _ _ m_def restart_def]) simp_all
  have "state s3 = INTERRUPTED_INTERNAL" by (simp add: s3_def)
  from AutoResumeIfValid_interrupted [OF this, of env] obtain s' rest where
    r: "AutoResumeIfValid env s3 = Inr s'" "state s' = state s3" "last_reason s' = last_reason s3"
       "download_file s' = download_file s3" "effects s' = effects s3 @ rest"
    by blast
  show "\<exists>s' rest. Interrupt env reason s = Inr s' \<and>
         last_reason s' = reason \<and> state s' = INTERRUPTED_INTERNAL \<and> \<not> download_file s' \<and>
         (let m = GetResumeMode (s\<lparr>last_reason := reason, state := INTERRUPTED_INTERNAL\<rparr>) in
          if m = RESUME_MODE_IMMEDIATE_RESTART \<or> m = RESUME_MODE_USER_RESTART
          then effects s' = effects s @ OnDownloadUpdated #
                 (if download_file s then [PostDownloadFileCancel] else []) @
                 CancelRequest # rest
          else effects s' = effects s @
                 [OnDownloadUpdated, PostDownloadFileDetach (download_file s), CancelRequest]
                 @ rest)"
    apply (rule exI [of _ s'], rule exI [of _ rest])
    using r i a
    by (auto simp add: Let_def s3_def m_def [symmetric] restart_def)
qed

theorem Interrupt_behaviour_witness:
  "state started_item = IN_PROGRESS_INTERNAL \<and> request_handle started_item \<noteq> None \<and>
   \<not> is_save_package_download started_item \<and> download_file started_item \<and>
   state history_interrupted_item \<noteq> IN_PROGRESS_INTERNAL \<and>
   Interrupt debug_build DOWNLOAD_INTERRUPT_REASON_CRASH history_interrupted_item =
     Inr history_interrupted_item \<and>
   (\<exists>s' rest. Interrupt debug_build DOWNLOAD_INTERRUPT_REASON_FILE_NO_SPACE started_item = Inr s' \<and>
      last_reason s' = DOWNLOAD_INTERRUPT_REASON_FILE_NO_SPACE \<and>
      state s' = INTERRUPTED_INTERNAL \<and> \<not> download_file s' \<and>
      effects s' = [PostDownloadFileInitialize, OnDownloadUpdated, PostDownloadFileCancel,
                    CancelRequest] @ rest)"
  using Interrupt_behaviour [of history_interrupted_item debug_build
          DOWNLOAD_INTERRUPT_REASON_CRASH DOWNLOAD_INTERRUPT_REASON_CRASH]
    Interrupt_behaviour [of started_item debug_build DOWNLOAD_INTERRUPT_REASON_FILE_NO_SPACE
          DOWNLOAD_INTERRUPT_REASON_CRASH]
  by (simp add: started_item_def fresh_item_def DownloadItemImpl_active_def Init_def
      history_interrupted_item_def DownloadItemImpl_history_def Let_def
      GetResumeMode_def IsInterrupted_def)

subsection \<open>Automatic resumption\<close>

lemma sint_increment_below_cap:
  "\<not> kMaxAutoResumeAttempts <=s c \<Longrightarrow> sint (c + 1) = sint c + 1"
proof -
  assume "\<not> kMaxAutoResumeAttempts <=s c"
  then have u: "sint c + 1 < 2 ^ 31" by (simp add: cap_reached_iff)
  have l: "- (2 ^ 31) \<le> sint c + 1" using sint_ge [of c] by simp
  have "sint (c + 1) = signed_take_bit 31 (sint c + 1)"
    by (simp add: sint_word_ariths)
  also have "\<dots> = sint c + 1"
    using l u by (rule signed_take_bit_int_eq_self)
  finally show ?thesis .
qed

lemma immediate_mode_below_cap:
  "GetResumeMode s = RESUME_MODE_IMMEDIATE_RESTART \<or>
   GetResumeMode s = RESUME_MODE_IMMEDIATE_CONTINUE \<Longrightarrow>
   state s = INTERRUPTED_INTERNAL \<and> \<not> kMaxAutoResumeAttempts <=s auto_resume_count s"
  by (cases "last_reason s")
     (auto simp add: GetResumeMode_def IsInterrupted_iff Let_def split: if_splits)

lemma small_count: "n < 5 \<Longrightarrow> \<not> kMaxAutoResumeAttempts <=s (of_nat n :: cint)"
proof -
  assume "n < 5"
  then consider "n = 0" | "n = 1" | "n = 2" | "n = 3" | "n = 4" by linarith
  then show ?thesis
    by cases (simp_all add: cap_reached_iff)
qed

lemma timeout_round:
  assumes "awaiting_timeout n s" and "n < 5"
  shows "\<exists>s'. run (timeout_then_restart env) s = Inr s' \<and> awaiting_timeout (Suc n) s'"
proof -
  from assms(2) have c: "\<not> kMaxAutoResumeAttempts <=s (of_nat n :: cint)" by (rule small_count)
  define s3 where "s3 = s\<lparr>last_reason := DOWNLOAD_INTERRUPT_REASON_NETWORK_TIMEOUT,
       state := INTERRUPTED_INTERNAL, download_file := False,
       effects := effects s @ [OnDownloadUpdated, PostDownloadFileCancel, CancelRequest]\<rparr>"
  have m: "GetResumeMode (s\<lparr>last_reason := DOWNLOAD_INTERRUPT_REASON_NETWORK_TIMEOUT,
       state := INTERRUPTED_INTERNAL\<rparr>) = RESUME_MODE_IMMEDIATE_RESTART"
    using assms(1) c by (simp add: GetResumeMode_def IsInterrupted_iff awaiting_timeout_def)
  have m3: "GetResumeMode s3 = RESUME_MODE_IMMEDIATE_RESTART"
    using m GetResumeMode_cong [of s3 "s\<lparr>last_reason := DOWNLOAD_INTERRUPT_REASON_NETWORK_TIMEOUT,
       state := INTERRUPTED_INTERNAL\<rparr>"] by (simp add: s3_def)
  have i: "Interrupt env DOWNLOAD_INTERRUPT_REASON_NETWORK_TIMEOUT s = AutoResumeIfValid env s3"
    using assms(1) m
      Interrupt_in_progress [of s RESUME_MODE_IMMEDIATE_RESTART
        DOWNLOAD_INTERRUPT_REASON_NETWORK_TIMEOUT True env]
    by (simp add: awaiting_timeout_def s3_def)
  define s4 where "s4 = s3\<lparr>auto_resume_count := auto_resume_count s3 + 1\<rparr>"
  have m4: "GetResumeMode s4 = RESUME_MODE_IMMEDIATE_RESTART \<or>
            GetResumeMode s4 = RESUME_MODE_USER_RESTART"
    using assms(1)
    by (simp add: s4_def s3_def GetResumeMode_def IsInterrupted_iff awaiting_timeout_def Let_def)
  have "\<exists>s5. ResumeInterruptedDownload env s4 = Inr s5 \<and> state s5 = INTERRUPTED_INTERNAL \<and>
          current_path s5 = [] \<and> \<not> is_paused s5 \<and> \<not> download_file s5 \<and>
          \<not> is_save_package_download s5 \<and> auto_resume_count s5 = of_nat (Suc n)"
    using assms(1) m4
    by (auto simp add: ResumeInterruptedDownload_def dcheck_fails_def IsInterrupted_iff Let_def
        emit_def awaiting_timeout_def s4_def s3_def)
  then obtain s5 where s5: "ResumeInterruptedDownload env s4 = Inr s5"
      "state s5 = INTERRUPTED_INTERNAL" "current_path s5 = []" "\<not> is_paused s5"
      "\<not> download_file s5" "\<not> is_save_package_download s5"
      "auto_resume_count s5 = of_nat (Suc n)" by blast
  have "Interrupt env DOWNLOAD_INTERRUPT_REASON_NETWORK_TIMEOUT s = Inr s5"
    using i m3 s5(1) by (simp add: AutoResumeIfValid_def Let_def s4_def)
  moreover have "\<exists>s'. Start env True (Some LiveRequestHandle) s5 = Inr s' \<and>
      awaiting_timeout (Suc n) s'"
    using s5
    by (simp add: Start_def dcheck_fails_def Let_def TransitionTo_def UpdateObservers_def emit_def
        awaiting_timeout_def)
  ultimately show ?thesis
    by (auto simp add: timeout_then_restart_def and_then_def)
qed

lemma timeout_rounds:
  "awaiting_timeout n s \<Longrightarrow> n + k \<le> 5 \<Longrightarrow>
   \<exists>s'. run (concat (replicate k (timeout_then_restart env))) s = Inr s' \<and>
        awaiting_timeout (n + k) s'"
proof (induction k arbitrary: n s)
  case 0
  then show ?case by simp
next
  case (Suc k)
  from Suc.prems have "n < 5" by simp
  from timeout_round [OF Suc.prems(1) this, of env] obtain s1 where
    s1: "run (timeout_then_restart env) s = Inr s1" "awaiting_timeout (Suc n) s1" by blast
  from Suc.prems have "Suc n + k \<le> 5" by simp
  from Suc.IH [OF s1(2) this] obtain s' where
    "run (concat (replicate k (timeout_then_restart env))) s1 = Inr s'"
    "awaiting_timeout (Suc n + k) s'" by blast
  with s1(1) show ?case
    by (auto simp add: run_append and_then_def)
qed

lemma Start_new_download:
  "\<exists>s'. Start env True (Some LiveRequestHandle) (DownloadItemImpl_active tb fp pr) = Inr s' \<and>
     awaiting_timeout 0 s'"
  by (simp add: Start_def dcheck_fails_def Let_def TransitionTo_def emit_def awaiting_timeout_def
      DownloadItemImpl_active_def Init_def)

lemma timeout_at_cap:
  assumes "awaiting_timeout 5 s"
  shows "Interrupt env DOWNLOAD_INTERRUPT_REASON_NETWORK_TIMEOUT s =
     Inr (s\<lparr>last_reason := DOWNLOAD_INTERRUPT_REASON_NETWORK_TIMEOUT,
             state := INTERRUPTED_INTERNAL, download_file := False,
             effects := effects s @ [OnDownloadUpdated, PostDownloadFileCancel, CancelRequest]\<rparr>)"
    and "GetResumeMode (s\<lparr>last_reason := DOWNLOAD_INTERRUPT_REASON_NETWORK_TIMEOUT,
             state := INTERRUPTED_INTERNAL, download_file := False,
             effects := effects s @ [OnDownloadUpdated, PostDownloadFileCancel, CancelRequest]\<rparr>)
          = RESUME_MODE_USER_RESTART"
proof -
  define s3 where "s3 = s\<lparr>last_reason := DOWNLOAD_INTERRUPT_REASON_NETWORK_TIMEOUT,
       state := INTERRUPTED_INTERNAL, download_file := False,
       effects := effects s @ [OnDownloadUpdated, PostDownloadFileCancel, CancelRequest]\<rparr>"
  have m: "GetResumeMode (s\<lparr>last_reason := DOWNLOAD_INTERRUPT_REASON_NETWORK_TIMEOUT,
       state := INTERRUPTED_INTERNAL\<rparr>) = RESUME_MODE_USER_RESTART"
    using assms
    by (simp add: GetResumeMode_def IsInterrupted_iff awaiting_timeout_def cap_reached_iff)
  show m3: "GetResumeMode (s\<lparr>last_reason := DOWNLOAD_INTERRUPT_REASON_NETWORK_TIMEOUT,
             state := INTERRUPTED_INTERNAL, download_file := False,
             effects := effects s @ [OnDownloadUpdated, PostDownloadFileCancel, CancelRequest]\<rparr>)
          = RESUME_MODE_USER_RESTART"
    using m GetResumeMode_cong [of s3 "s\<lparr>last_reason := DOWNLOAD_INTERRUPT_REASON_NETWORK_TIMEOUT,
       state := INTERRUPTED_INTERNAL\<rparr>"] by (simp add: s3_def)
  have i: "Interrupt env DOWNLOAD_INTERRUPT_REASON_NETWORK_TIMEOUT s = AutoResumeIfValid env s3"
    using assms m
      Interrupt_in_progress [of s RESUME_MODE_USER_RESTART
        DOWNLOAD_INTERRUPT_REASON_NETWORK_TIMEOUT True env]
    by (simp add: awaiting_timeout_def s3_def)
  show "Interrupt env DOWNLOAD_INTERRUPT_REASON_NETWORK_TIMEOUT s =
     Inr (s\<lparr>last_reason := DOWNLOAD_INTERRUPT_REASON_NETWORK_TIMEOUT,
             state := INTERRUPTED_INTERNAL, download_file := False,
             effects := effects s @ [OnDownloadUpdated, PostDownloadFileCancel, CancelRequest]\<rparr>)"
    using i m3 by (simp add: AutoResumeIfValid_def Let_def s3_def)
qed

lemma Interrupt_auto_resume:
  assumes "state s = IN_PROGRESS_INTERNAL" and "request_handle s \<noteq> None"
    and "m = GetResumeMode (s\<lparr>last_reason := reason, state := INTERRUPTED_INTERNAL\<rparr>)"
    and "immediate \<longleftrightarrow> m = RESUME_MODE_IMMEDIATE_RESTART \<or> m = RESUME_MODE_IMMEDIATE_CONTINUE"
  shows "\<exists>s'. Interrupt env reason s = Inr s' \<and>
           auto_resume_count s' =
             (if immediate then auto_resume_count s + 1 else auto_resume_count s) \<and>
           ((\<exists>p n h l e. DelegateResumeInterruptedDownload p n h l e
                \<in> set (drop (length (effects s)) (effects s'))) \<longleftrightarrow>
            immediate \<and> enable_download_resumption env \<and> GetWebContents env s)"
proof -
  define restart where
    "restart \<longleftrightarrow> m = RESUME_MODE_IMMEDIATE_RESTART \<or> m = RESUME_MODE_USER_RESTART"
  define s3 where "s3 = s\<lparr>last_reason := reason, state := INTERRUPTED_INTERNAL,
          download_file := (restart \<and> is_save_package_download s \<and> download_file s),
          effects := effects s @ OnDownloadUpdated #
            (if restart
             then (if \<not> is_save_package_download s \<and> download_file s
                   then [PostDownloadFileCancel] else [])
             else [PostDownloadFileDetach (download_file s)]) @ [CancelRequest]\<rparr>"
  have i: "Interrupt env reason s = AutoResumeIfValid env s3"
    unfolding s3_def by (rule Interrupt_in_progress [OF assms(1,2,3) restart_def])
  have m3: "GetResumeMode s3 = m"
    unfolding assms(3) by (rule GetResumeMode_cong) (simp_all add: s3_def)
  show ?thesis
  proof (cases immediate)
    case False
    then have "AutoResumeIfValid env s3 = Inr s3"
      using m3 assms(4) by (simp add: AutoResumeIfValid_def Let_def)
    with False i show ?thesis
      by (auto simp add: s3_def)
  next
    case True
    let ?t = "s3\<lparr>auto_resume_count := auto_resume_count s3 + 1\<rparr>"
    have r: "AutoResumeIfValid env s3 = ResumeInterruptedDownload env ?t"
      using True m3 assms(4) by (auto simp add: AutoResumeIfValid_def Let_def)
    have "state ?t = INTERRUPTED_INTERNAL" by (simp add: s3_def)
    from ResumeInterruptedDownload_interrupted [OF this, of env] obtain s' where
      s': "ResumeInterruptedDownload env ?t = Inr s'"
          "auto_resume_count s' = auto_resume_count ?t"
          "effects s' = effects ?t @
             (if enable_download_resumption env \<and> GetWebContents env ?t
              then [DelegateResumeInterruptedDownload (current_path s') (received_bytes s')
                      (hash_state s') (last_modified_time s') (etag s')]
              else [])"
      by blast
    have w: "GetWebContents env ?t = GetWebContents env s"
      by (simp add: GetWebContents_def s3_def)
    show ?thesis
      using True i r s' w by (auto simp add: s3_def)
  qed
qed


text \<open>
  C3: automatic resumption after an interrupt happens only when the decided resume mode
  is \<open>IMMEDIATE_RESTART\<close> or \<open>IMMEDIATE_CONTINUE\<close>, and then the auto-resume counter is
  incremented (by one, without overflow) before the resumption procedure runs; for
  \<open>USER_RESTART\<close>, \<open>USER_CONTINUE\<close> and \<open>INVALID\<close> nothing is done and the counter stays.
  Seen from \<open>Interrupt\<close>: the counter moves and the delegate is asked to resume only for
  the two immediate modes. In particular a new download that is started, then five times
  hit by \<open>NETWORK_TIMEOUT\<close> with no intermediate file and restarted, has used up the cap
  of 5: the sixth timeout leaves it INTERRUPTED with mode \<open>USER_RESTART\<close>, the counter at 5,
  and nothing after the cancel of the request in the trace.
\<close>

theorem AutoResume_policy:
  "(GetResumeMode s \<noteq> RESUME_MODE_IMMEDIATE_RESTART \<and>
    GetResumeMode s \<noteq> RESUME_MODE_IMMEDIATE_CONTINUE \<longrightarrow>
      AutoResumeIfValid env s = Inr s) \<and>
   (GetResumeMode s = RESUME_MODE_IMMEDIATE_RESTART \<or>
    GetResumeMode s = RESUME_MODE_IMMEDIATE_CONTINUE \<longrightarrow>
      AutoResumeIfValid env s =
        ResumeInterruptedDownload env (s\<lparr>auto_resume_count := auto_resume_count s + 1\<rparr>) \<and>
      (\<exists>s'. AutoResumeIfValid env s = Inr s' \<and>
            sint (auto_resume_count s') = sint (auto_resume_count s) + 1)) \<and>
   (state s = IN_PROGRESS_INTERNAL \<and> request_handle s \<noteq> None \<longrightarrow>
      (\<exists>s'. Interrupt env reason s = Inr s' \<and>
         (let m = GetResumeMode (s\<lparr>last_reason := reason, state := INTERRUPTED_INTERNAL\<rparr>);
              immediate = (m = RESUME_MODE_IMMEDIATE_RESTART \<or>
                           m = RESUME_MODE_IMMEDIATE_CONTINUE)
          in auto_resume_count s' =
               (if immediate then auto_resume_count s + 1 else auto_resume_count s) \<and>
             ((\<exists>p n h l e. DelegateResumeInterruptedDownload p n h l e
                  \<in> set (drop (length (effects s)) (effects s'))) \<longleftrightarrow>
              immediate \<and> enable_download_resumption env \<and> GetWebContents env s)))) \<and>
   (\<exists>s5. run ((env, Call_Start True (Some LiveRequestHandle)) #
              concat (replicate 5 (timeout_then_restart env)))
            (DownloadItemImpl_active total_b forced_path prompt) = Inr s5 \<and>
         state s5 = IN_PROGRESS_INTERNAL \<and> auto_resume_count s5 = 5 \<and>
         Interrupt env DOWNLOAD_INTERRUPT_REASON_NETWORK_TIMEOUT s5 =
           Inr (s5\<lparr>last_reason := DOWNLOAD_INTERRUPT_REASON_NETWORK_TIMEOUT,
                   state := INTERRUPTED_INTERNAL, download_file := False,
                   effects := effects s5 @
                     [OnDownloadUpdated, PostDownloadFileCancel, CancelRequest]\<rparr>) \<and>
         GetResumeMode (s5\<lparr>last_reason := DOWNLOAD_INTERRUPT_REASON_NETWORK_TIMEOUT,
                   state := INTERRUPTED_INTERNAL, download_file := False,
                   effects := effects s5 @
                     [OnDownloadUpdated, PostDownloadFileCancel, CancelRequest]\<rparr>)
           = RESUME_MODE_USER_RESTART)"
proof (intro conjI impI)
  assume "GetResumeMode s \<noteq> RESUME_MODE_IMMEDIATE_RESTART \<and>
          GetResumeMode s \<noteq> RESUME_MODE_IMMEDIATE_CONTINUE"
  then show "AutoResumeIfValid env s = Inr s"
    by (simp add: AutoResumeIfValid_def Let_def)
next
  assume a: "GetResumeMode s = RESUME_MODE_IMMEDIATE_RESTART \<or>
             GetResumeMode s = RESUME_MODE_IMMEDIATE_CONTINUE"
  then show e: "AutoResumeIfValid env s =
        ResumeInterruptedDownload env (s\<lparr>auto_resume_count := auto_resume_count s + 1\<rparr>)"
    by (auto simp add: AutoResumeIfValid_def Let_def)
  from immediate_mode_below_cap [OF a] have
    st: "state (s\<lparr>auto_resume_count := auto_resume_count s + 1\<rparr>) = INTERRUPTED_INTERNAL"
    and c: "sint (auto_resume_count s + 1) = sint (auto_resume_count s) + 1"
    by (simp_all add: sint_increment_below_cap)
  from ResumeInterruptedDownload_interrupted [OF st, of env] c e
  show "\<exists>s'. AutoResumeIfValid env s = Inr s' \<and>
            sint (auto_resume_count s') = sint (auto_resume_count s) + 1"
    by auto
next
  assume "state s = IN_PROGRESS_INTERNAL \<and> request_handle s \<noteq> None"
  then show "\<exists>s'. Interrupt env reason s = Inr s' \<and>
         (let m = GetResumeMode (s\<lparr>last_reason := reason, state := INTERRUPTED_INTERNAL\<rparr>);
              immediate = (m = RESUME_MODE_IMMEDIATE_RESTART \<or>
                           m = RESUME_MODE_IMMEDIATE_CONTINUE)
          in auto_resume_count s' =
               (if immediate then auto_resume_count s + 1 else auto_resume_count s) \<and>
             ((\<exists>p n h l e. DelegateResumeInterruptedDownload p n h l e
                  \<in> set (drop (length (effects s)) (effects s'))) \<longleftrightarrow>
              immediate \<and> enable_download_resumption env \<and> GetWebContents env s))"
    unfolding Let_def by (intro Interrupt_auto_resume) simp_all
next
  from Start_new_download [of env total_b forced_path prompt] obtain s0 where
    s0: "Start env True (Some LiveRequestHandle)
           (DownloadItemImpl_active total_b forced_path prompt) = Inr s0"
        "awaiting_timeout 0 s0" by blast
  from timeout_rounds [OF s0(2), of 5 env] obtain s5 where
    s5: "run (concat (replicate 5 (timeout_then_restart env))) s0 = Inr s5"
        "awaiting_timeout 5 s5" by auto
  have "run ((env, Call_Start True (Some LiveRequestHandle)) #
              concat (replicate 5 (timeout_then_restart env)))
            (DownloadItemImpl_active total_b forced_path prompt) = Inr s5"
    using s0(1) s5(1) by (simp add: and_then_def)
  moreover have "state s5 = IN_PROGRESS_INTERNAL" "auto_resume_count s5 = 5"
    using s5(2) by (simp_all add: awaiting_timeout_def)
  ultimately show "\<exists>s5. run ((env, Call_Start True (Some LiveRequestHandle)) #
              concat (replicate 5 (timeout_then_restart env)))
            (DownloadItemImpl_active total_b forced_path prompt) = Inr s5 \<and>
         state s5 = IN_PROGRESS_INTERNAL \<and> auto_resume_count s5 = 5 \<and>
         Interrupt env DOWNLOAD_INTERRUPT_REASON_NETWORK_TIMEOUT s5 =
           Inr (s5\<lparr>last_reason := DOWNLOAD_INTERRUPT_REASON_NETWORK_TIMEOUT,
                   state := INTERRUPTED_INTERNAL, download_file := False,
                   effects := effects s5 @
                     [OnDownloadUpdated, PostDownloadFileCancel, CancelRequest]\<rparr>) \<and>
         GetResumeMode (s5\<lparr>last_reason := DOWNLOAD_INTERRUPT_REASON_NETWORK_TIMEOUT,
                   state := INTERRUPTED_INTERNAL, download_file := False,
                   effects := effects s5 @
                     [OnDownloadUpdated, PostDownloadFileCancel, CancelRequest]\<rparr>)
           = RESUME_MODE_USER_RESTART"
    using timeout_at_cap(1) [OF s5(2), of env] timeout_at_cap(2) [OF s5(2)] by blast
qed

theorem AutoResume_policy_witness:
  "GetResumeMode started_item \<noteq> RESUME_MODE_IMMEDIATE_RESTART \<and>
   GetResumeMode started_item \<noteq> RESUME_MODE_IMMEDIATE_CONTINUE \<and>
   AutoResumeIfValid debug_build started_item = Inr started_item \<and>
   GetResumeMode history_interrupted_item = RESUME_MODE_IMMEDIATE_CONTINUE \<and>
   (\<exists>s'. AutoResumeIfValid debug_build history_interrupted_item = Inr s' \<and>
         sint (auto_resume_count s') = 1) \<and>
   state started_item = IN_PROGRESS_INTERNAL \<and> request_handle started_item \<noteq> None \<and>
   (\<exists>s'. Interrupt debug_build DOWNLOAD_INTERRUPT_REASON_NETWORK_TIMEOUT started_item = Inr s' \<and>
         auto_resume_count s' = 1)"
proof -
  note a = AutoResume_policy [where s = started_item and env = debug_build
          and reason = DOWNLOAD_INTERRUPT_REASON_NETWORK_TIMEOUT and total_b = 1000
          and forced_path = "[]" and prompt = False]
  note b = AutoResume_policy [where s = history_interrupted_item and env = debug_build
          and reason = DOWNLOAD_INTERRUPT_REASON_NETWORK_TIMEOUT and total_b = 1000
          and forced_path = "[]" and prompt = False]
  have f: "state started_item = IN_PROGRESS_INTERNAL"
      "request_handle started_item \<noteq> None"
      "auto_resume_count started_item = 0"
    by (simp_all add: started_item_def fresh_item_def DownloadItemImpl_active_def Init_def)
  have m: "GetResumeMode started_item = RESUME_MODE_INVALID"
    by (simp add: GetResumeMode_not_interrupted f)
  have n: "GetResumeMode (started_item\<lparr>last_reason := DOWNLOAD_INTERRUPT_REASON_NETWORK_TIMEOUT,
             state := INTERRUPTED_INTERNAL\<rparr>) = RESUME_MODE_IMMEDIATE_RESTART"
    by (simp add: started_item_def fresh_item_def DownloadItemImpl_active_def Init_def
        GetResumeMode_def IsInterrupted_def cap_reached_iff)
  have h: "GetResumeMode history_interrupted_item = RESUME_MODE_IMMEDIATE_CONTINUE"
      "sint (auto_resume_count history_interrupted_item) = 0"
    by (simp_all add: history_interrupted_item_def DownloadItemImpl_history_def Init_def Let_def
        GetResumeMode_def IsInterrupted_def cap_reached_iff)
  from a m have 1: "AutoResumeIfValid debug_build started_item = Inr started_item" by auto
  from b h(1) have "\<exists>s'. AutoResumeIfValid debug_build history_interrupted_item = Inr s' \<and>
         sint (auto_resume_count s') = sint (auto_resume_count history_interrupted_item) + 1"
    by blast
  then have 2: "\<exists>s'. AutoResumeIfValid debug_build history_interrupted_item = Inr s' \<and>
         sint (auto_resume_count s') = 1" by (simp add: h(2))
  from a f n have 3: "\<exists>s'. Interrupt debug_build DOWNLOAD_INTERRUPT_REASON_NETWORK_TIMEOUT
         started_item = Inr s' \<and> auto_resume_count s' = 1"
    by (auto simp add: Let_def)
  from 1 2 3 m h f show ?thesis by simp
qed

subsection \<open>The flag for all data saved\<close>

named_theorems saved \<open>total methods leave the flag as it is\<close>
named_theorems saved_dest \<open>fallible methods leave the flag as it is\<close>

lemma emit_saved [saved]: "all_data_saved (emit e s) = all_data_saved s"
  by (simp add: emit_def)

lemma UpdateObservers_saved [saved]: "all_data_saved (UpdateObservers s) = all_data_saved s"
  by (simp add: UpdateObservers_def emit_def)

lemma TransitionTo_saved [saved]: "all_data_saved (TransitionTo st s) = all_data_saved s"
  by (simp add: TransitionTo_def Let_def UpdateObservers_def emit_def)

lemma CancelDownloadFile_saved [saved]:
  "all_data_saved (CancelDownloadFile s) = all_data_saved s"
  by (simp add: CancelDownloadFile_def emit_def)

lemma SetDangerType_saved [saved]: "all_data_saved (SetDangerType dt s) = all_data_saved s"
  by (simp add: SetDangerType_def)

lemma OpenDownload_saved [saved]: "all_data_saved (OpenDownload s) = all_data_saved s"
  by (simp add: OpenDownload_def emit_def)

lemma setters_saved [saved]:
  "all_data_saved (ShowDownloadInShell s) = all_data_saved s"
  "all_data_saved (SetOpenWhenComplete b s) = all_data_saved s"
  "all_data_saved (SetIsTemporary b s) = all_data_saved s"
  "all_data_saved (SetOpened b s) = all_data_saved s"
  "all_data_saved (SetDisplayName p s) = all_data_saved s"
  "all_data_saved (SetTotalBytes n s) = all_data_saved s"
  "all_data_saved (OnDownloadedFileRemoved s) = all_data_saved s"
  by (simp_all add: ShowDownloadInShell_def SetOpenWhenComplete_def SetIsTemporary_def
      SetOpened_def SetDisplayName_def SetTotalBytes_def OnDownloadedFileRemoved_def
      UpdateObservers_def emit_def)

lemma UpdateProgress_saved [saved]:
  "all_data_saved (UpdateProgress b r h s) = all_data_saved s"
  by (simp add: UpdateProgress_def Let_def UpdateObservers_def emit_def)

lemma DestinationUpdate_saved [saved]:
  "all_data_saved (DestinationUpdate b r h s) = all_data_saved s"
  by (simp add: DestinationUpdate_def Let_def UpdateObservers_def emit_def)

lemma IsDownloadReadyForCompletion_saved [saved]:
  "all_data_saved (snd (IsDownloadReadyForCompletion env s)) = all_data_saved s"
  by (simp add: IsDownloadReadyForCompletion_def saved)

lemma request_handle_call_saved [saved_dest]:
  "request_handle_call e s = Inr s' \<Longrightarrow> all_data_saved s' = all_data_saved s"
  by (auto simp add: request_handle_call_def emit_def split: option.splits)

lemma SetFullPath_saved [saved_dest]:
  "SetFullPath env p s = Inr s' \<Longrightarrow> all_data_saved s' = all_data_saved s"
  by (auto simp add: SetFullPath_def UpdateObservers_def emit_def split: if_splits)

lemma ResumeInterruptedDownload_saved [saved_dest]:
  "ResumeInterruptedDownload env s = Inr s' \<Longrightarrow> all_data_saved s' = all_data_saved s"
  by (auto simp add: ResumeInterruptedDownload_def Let_def emit_def split: if_splits)

lemma AutoResumeIfValid_saved [saved_dest]:
  "AutoResumeIfValid env s = Inr s' \<Longrightarrow> all_data_saved s' = all_data_saved s"
  by (auto simp add: AutoResumeIfValid_def Let_def split: if_splits
      dest!: ResumeInterruptedDownload_saved)

lemma Interrupt_saved [saved_dest]:
  "Interrupt env r s = Inr s' \<Longrightarrow> all_data_saved s' = all_data_saved s"
  by (auto simp add: Interrupt_def Let_def and_then_Inr_iff saved split: if_splits
      dest!: AutoResumeIfValid_saved request_handle_call_saved)

lemma Pause_saved [saved_dest]:
  "Pause s = Inr s' \<Longrightarrow> all_data_saved s' = all_data_saved s"
  by (auto simp add: Pause_def and_then_Inr_iff saved split: if_splits
      dest!: request_handle_call_saved)

lemma Resume_saved [saved_dest]:
  "Resume env s = Inr s' \<Longrightarrow> all_data_saved s' = all_data_saved s"
  by (auto simp add: Resume_def and_then_Inr_iff saved split: if_splits
      dest!: request_handle_call_saved ResumeInterruptedDownload_saved)

lemma Cancel_saved [saved_dest]:
  "Cancel u s = Inr s' \<Longrightarrow> all_data_saved s' = all_data_saved s"
  by (auto simp add: Cancel_def Let_def and_then_Inr_iff saved split: if_splits
      dest!: request_handle_call_saved)

lemma Remove_saved [saved_dest]:
  "Remove s = Inr s' \<Longrightarrow> all_data_saved s' = all_data_saved s"
  by (auto simp add: Remove_def and_then_Inr_iff saved dest!: Cancel_saved)

lemma Delete_saved [saved_dest]:
  "Delete r s = Inr s' \<Longrightarrow> all_data_saved s' = all_data_saved s"
  by (auto simp add: Delete_def saved split: if_splits dest!: Remove_saved)

lemma OnContentCheckCompleted_saved [saved_dest]:
  "OnContentCheckCompleted env dt s = Inr s' \<Longrightarrow> all_data_saved s' = all_data_saved s"
  by (auto simp add: OnContentCheckCompleted_def saved split: if_splits)

lemma MarkAsComplete_saved [saved_dest]:
  "MarkAsComplete env s = Inr s' \<Longrightarrow> all_data_saved s' = all_data_saved s"
  by (auto simp add: MarkAsComplete_def saved split: if_splits)

lemma Start_saved [saved_dest]:
  "Start env f r s = Inr s' \<Longrightarrow> all_data_saved s' = all_data_saved s"
  by (auto simp add: Start_def Let_def saved split: if_splits)

lemma Completed_saved [saved_dest]:
  "Completed env s = Inr s' \<Longrightarrow> all_data_saved s' = all_data_saved s"
  by (auto simp add: Completed_def Let_def saved split: if_splits)

lemma OnDownloadCompleting_saved [saved_dest]:
  "OnDownloadCompleting env s = Inr s' \<Longrightarrow> all_data_saved s' = all_data_saved s"
  by (auto simp add: OnDownloadCompleting_def saved split: if_splits dest!: Completed_saved)

lemma MaybeCompleteDownload_saved [saved_dest]:
  "MaybeCompleteDownload env s = Inr s' \<Longrightarrow> all_data_saved s' = all_data_saved s"
  using IsDownloadReadyForCompletion_saved [of env s]
  by (auto simp add: MaybeCompleteDownload_def split: if_splits prod.splits
      dest!: OnDownloadCompleting_saved)

lemma DangerousDownloadValidated_saved [saved_dest]:
  "DangerousDownloadValidated env s = Inr s' \<Longrightarrow> all_data_saved s' = all_data_saved s"
  by (auto simp add: DangerousDownloadValidated_def saved split: if_splits
      dest!: MaybeCompleteDownload_saved)

lemma OnDownloadFileInitialized_saved [saved_dest]:
  "OnDownloadFileInitialized env r s = Inr s' \<Longrightarrow> all_data_saved s' = all_data_saved s"
  by (auto simp add: OnDownloadFileInitialized_def and_then_Inr_iff saved split: if_splits
      dest!: MaybeCompleteDownload_saved Interrupt_saved)

lemma OnDownloadTargetDetermined_saved [saved_dest]:
  "OnDownloadTargetDetermined env tp d dt ip s = Inr s' \<Longrightarrow>
   all_data_saved s' = all_data_saved s"
  by (auto simp add: OnDownloadTargetDetermined_def Let_def saved split: if_splits
      dest!: Cancel_saved)

lemma OnDownloadRenamedToIntermediateName_saved [saved_dest]:
  "OnDownloadRenamedToIntermediateName env r p s = Inr s' \<Longrightarrow>
   all_data_saved s' = all_data_saved s"
  by (auto simp add: OnDownloadRenamedToIntermediateName_def and_then_Inr_iff saved
      split: if_splits dest!: MaybeCompleteDownload_saved Interrupt_saved SetFullPath_saved)

lemma OnDownloadRenamedToFinalName_saved [saved_dest]:
  "OnDownloadRenamedToFinalName env r p s = Inr s' \<Longrightarrow>
   all_data_saved s' = all_data_saved s"
  by (auto simp add: OnDownloadRenamedToFinalName_def and_then_Inr_iff Let_def saved
      split: if_splits dest!: Completed_saved Interrupt_saved SetFullPath_saved)

lemma DelayedDownloadOpened_saved [saved_dest]:
  "DelayedDownloadOpened env b s = Inr s' \<Longrightarrow> all_data_saved s' = all_data_saved s"
  by (auto simp add: DelayedDownloadOpened_def dest!: Completed_saved)

lemma OnAllDataSaved_result:
  "OnAllDataSaved env h s = Inr s' \<Longrightarrow>
   s' = s\<lparr>all_data_saved := True, hash := h, hash_state := [],
          effects := effects s @ [OnDownloadUpdated]\<rparr> \<and>
   (dcheck_is_on env \<longrightarrow> state s = IN_PROGRESS_INTERNAL \<and> \<not> all_data_saved s)"
  by (auto simp add: OnAllDataSaved_def dcheck_fails_def UpdateObservers_def emit_def
      split: if_splits)

lemma MaybeCompleteDownload_hash:
  "MaybeCompleteDownload env s = Inr s' \<Longrightarrow> hash s' = hash s \<and> hash_state s' = hash_state s"
  by (auto simp add: MaybeCompleteDownload_def IsDownloadReadyForCompletion_def
      OnDownloadCompleting_def Completed_def Let_def TransitionTo_def UpdateObservers_def
      OpenDownload_def emit_def split: if_splits prod.splits)

lemma DestinationCompleted_result:
  assumes "DestinationCompleted env h s = Inr s'"
  shows "all_data_saved s \<longrightarrow> all_data_saved s'"
    and "\<not> all_data_saved s \<and> all_data_saved s' \<longrightarrow> hash s' = h \<and> hash_state s' = []"
proof -
  show "all_data_saved s \<longrightarrow> all_data_saved s'"
    using assms
    by (auto simp add: DestinationCompleted_def and_then_Inr_iff split: if_splits
        dest!: MaybeCompleteDownload_saved OnAllDataSaved_result)
  show "\<not> all_data_saved s \<and> all_data_saved s' \<longrightarrow> hash s' = h \<and> hash_state s' = []"
    using assms
    by (auto simp add: DestinationCompleted_def and_then_Inr_iff split: if_splits
        dest!: MaybeCompleteDownload_hash OnAllDataSaved_result)
qed

lemma step_saved:
  assumes "step env ev s = Inr s'"
  shows "all_data_saved s \<longrightarrow> all_data_saved s'"
    and "\<not> all_data_saved s \<and> all_data_saved s' \<longrightarrow>
         (\<exists>h. (ev = Call_OnAllDataSaved h \<or> ev = Call_DestinationCompleted h) \<and>
              hash s' = h \<and> hash_state s' = [])"
proof -
  show "all_data_saved s \<longrightarrow> all_data_saved s'"
    using assms DestinationCompleted_result(1) [of env _ s s']
    by (cases ev) (auto simp add: saved DestinationError_def dest: saved_dest OnAllDataSaved_result)
  show "\<not> all_data_saved s \<and> all_data_saved s' \<longrightarrow>
         (\<exists>h. (ev = Call_OnAllDataSaved h \<or> ev = Call_DestinationCompleted h) \<and>
              hash s' = h \<and> hash_state s' = [])"
    using assms DestinationCompleted_result(2) [of env _ s s']
    by (cases ev) (auto simp add: saved DestinationError_def dest: saved_dest OnAllDataSaved_result)
qed

lemma run_saved:
  "run evs s = Inr s' \<Longrightarrow> all_data_saved s \<Longrightarrow> all_data_saved s'"
proof (induction evs arbitrary: s)
  case Nil
  then show ?case by simp
next
  case (Cons a evs)
  obtain env ev where a: "a = (env, ev)" by (cases a)
  from Cons.prems(1) obtain s1 where s1: "step env ev s = Inr s1" "run evs s1 = Inr s'"
    by (auto simp add: a and_then_Inr_iff)
  from step_saved(1) [OF s1(1)] Cons.prems(2) have "all_data_saved s1" by simp
  with Cons.IH [OF s1(2)] show ?case by simp
qed

text \<open>
  C8: \<open>all_data_saved\<close> is monotonic: along every history of method calls that does not
  fail, an item that has the flag keeps it. A single call turns the flag on only if it is
  \<open>OnAllDataSaved\<close>, or \<open>DestinationCompleted\<close> (whose body calls \<open>OnAllDataSaved\<close>), and
  then the final hash is stored and the hash state is empty. \<open>OnAllDataSaved\<close> sets the
  flag, stores the hash, clears the hash state and notifies the observers; its two
  \<^verbatim>\<open>DCHECK\<close>s let it pass exactly from internal state IN_PROGRESS with the flag still
  off. Of the constructors only the one for history items sets the flag, exactly for
  a persisted COMPLETE state.
\<close>

theorem all_data_saved_monotonic:
  "(run evs s = Inr s' \<and> all_data_saved s \<longrightarrow> all_data_saved s') \<and>
   (step env ev s = Inr s' \<and> \<not> all_data_saved s \<and> all_data_saved s' \<longrightarrow>
      (\<exists>h. (ev = Call_OnAllDataSaved h \<or> ev = Call_DestinationCompleted h) \<and>
           hash s' = h \<and> hash_state s' = [])) \<and>
   (OnAllDataSaved env h s = Inr s' \<longrightarrow>
      s' = s\<lparr>all_data_saved := True, hash := h, hash_state := [],
             effects := effects s @ [OnDownloadUpdated]\<rparr>) \<and>
   (dcheck_is_on env \<longrightarrow>
      ((\<exists>t. OnAllDataSaved env h s = Inr t) \<longleftrightarrow>
       state s = IN_PROGRESS_INTERNAL \<and> \<not> all_data_saved s)) \<and>
   (all_data_saved (DownloadItemImpl_history cur tgt received_b total_b st dt ir was_opened)
      \<longleftrightarrow> st = COMPLETE) \<and>
   \<not> all_data_saved (DownloadItemImpl_active total_b forced_path prompt) \<and>
   \<not> all_data_saved (DownloadItemImpl_save_package path)"
proof (intro conjI impI)
  assume "run evs s = Inr s' \<and> all_data_saved s"
  then show "all_data_saved s'" using run_saved by blast
next
  assume "step env ev s = Inr s' \<and> \<not> all_data_saved s \<and> all_data_saved s'"
  then show "\<exists>h. (ev = Call_OnAllDataSaved h \<or> ev = Call_DestinationCompleted h) \<and>
           hash s' = h \<and> hash_state s' = []"
    using step_saved(2) [of env ev s s'] by blast
next
  assume "OnAllDataSaved env h s = Inr s'"
  then show "s' = s\<lparr>all_data_saved := True, hash := h, hash_state := [],
             effects := effects s @ [OnDownloadUpdated]\<rparr>"
    using OnAllDataSaved_result by blast
next
  assume "dcheck_is_on env"
  then show "(\<exists>t. OnAllDataSaved env h s = Inr t) \<longleftrightarrow>
       state s = IN_PROGRESS_INTERNAL \<and> \<not> all_data_saved s"
    by (auto simp add: OnAllDataSaved_def dcheck_fails_def)
next
  show "all_data_saved (DownloadItemImpl_history cur tgt received_b total_b st dt ir was_opened)
      \<longleftrightarrow> st = COMPLETE"
    by (cases st) (simp_all add: DownloadItemImpl_history_def Init_def Let_def)
next
  show "\<not> all_data_saved (DownloadItemImpl_active total_b forced_path prompt)"
    by (simp add: DownloadItemImpl_active_def Init_def)
next
  show "\<not> all_data_saved (DownloadItemImpl_save_package path)"
    by (simp add: DownloadItemImpl_save_package_def Init_def)
qed

theorem all_data_saved_monotonic_witness:
  "dcheck_is_on debug_build \<and> \<not> all_data_saved started_item \<and>
   step debug_build (Call_OnAllDataSaved ''h'') started_item = Inr saved_item \<and>
   all_data_saved saved_item \<and> hash saved_item = ''h'' \<and> hash_state saved_item = [] \<and>
   state started_item = IN_PROGRESS_INTERNAL \<and>
   run [(debug_build, Call_UpdateProgress 10 1 ''x''), (debug_build, Call_Cancel True)] saved_item =
     Inr (saved_item\<lparr>bytes_per_sec := 1, hash_state := ''x'', received_bytes := 10,
            last_reason := DOWNLOAD_INTERRUPT_REASON_USER_CANCELED, download_file := False,
            state := CANCELLED_INTERNAL,
            effects := [PostDownloadFileInitialize, OnDownloadUpdated, OnDownloadUpdated,
                        PostDownloadFileCancel, CancelRequest, OnDownloadUpdated]\<rparr>) \<and>
   all_data_saved (saved_item\<lparr>bytes_per_sec := 1, hash_state := ''x'', received_bytes := 10,
            last_reason := DOWNLOAD_INTERRUPT_REASON_USER_CANCELED, download_file := False,
            state := CANCELLED_INTERNAL,
            effects := [PostDownloadFileInitialize, OnDownloadUpdated, OnDownloadUpdated,
                        PostDownloadFileCancel, CancelRequest, OnDownloadUpdated]\<rparr>)"
proof -
  have 1: "step debug_build (Call_OnAllDataSaved ''h'') started_item = Inr saved_item"
    by (simp add: OnAllDataSaved_def dcheck_fails_def UpdateObservers_def emit_def
        saved_item_def started_item_def fresh_item_def DownloadItemImpl_active_def Init_def)
  have 2: "run [(debug_build, Call_UpdateProgress 10 1 ''x''), (debug_build, Call_Cancel True)]
       saved_item =
     Inr (saved_item\<lparr>bytes_per_sec := 1, hash_state := ''x'', received_bytes := 10,
            last_reason := DOWNLOAD_INTERRUPT_REASON_USER_CANCELED, download_file := False,
            state := CANCELLED_INTERNAL,
            effects := [PostDownloadFileInitialize, OnDownloadUpdated, OnDownloadUpdated,
                        PostDownloadFileCancel, CancelRequest, OnDownloadUpdated]\<rparr>)"
    by (simp add: and_then_def UpdateProgress_def Cancel_def CancelDownloadFile_def
        request_handle_call_def TransitionTo_def Let_def UpdateObservers_def emit_def
        word_sless_alt saved_item_def started_item_def fresh_item_def
        DownloadItemImpl_active_def Init_def)
  have 3: "dcheck_is_on debug_build" "\<not> all_data_saved started_item"
      "all_data_saved saved_item" "state started_item = IN_PROGRESS_INTERNAL"
    by (simp_all add: debug_build_def saved_item_def started_item_def fresh_item_def
        DownloadItemImpl_active_def Init_def)
  note a = all_data_saved_monotonic [where env = debug_build and ev = "Call_OnAllDataSaved ''h''"
      and s = started_item and s' = saved_item and h = "''h''" and evs = "[]" and st = COMPLETE]
  note b = all_data_saved_monotonic [where env = debug_build and ev = "Call_OnAllDataSaved ''h''"
      and s = saved_item and h = "''h''" and st = COMPLETE
      and evs = "[(debug_build, Call_UpdateProgress 10 1 ''x''), (debug_build, Call_Cancel True)]"
      and s' = "saved_item\<lparr>bytes_per_sec := 1, hash_state := ''x'', received_bytes := 10,
            last_reason := DOWNLOAD_INTERRUPT_REASON_USER_CANCELED, download_file := False,
            state := CANCELLED_INTERNAL,
            effects := [PostDownloadFileInitialize, OnDownloadUpdated, OnDownloadUpdated,
                        PostDownloadFileCancel, CancelRequest, OnDownloadUpdated]\<rparr>"]
  from a 1 3 have 4: "hash saved_item = ''h'' \<and> hash_state saved_item = []" by blast
  from b 2 3 have 5: "all_data_saved (saved_item\<lparr>bytes_per_sec := 1, hash_state := ''x'',
            received_bytes := 10,
            last_reason := DOWNLOAD_INTERRUPT_REASON_USER_CANCELED, download_file := False,
            state := CANCELLED_INTERNAL,
            effects := [PostDownloadFileInitialize, OnDownloadUpdated, OnDownloadUpdated,
                        PostDownloadFileCancel, CancelRequest, OnDownloadUpdated]\<rparr>)" by blast
  from 1 2 3 4 5 show ?thesis by blast
qed

subsection \<open>Cancel\<close>

lemma Cancel_acts:
  assumes "state s = INTERRUPTED_INTERNAL \<or>
           (state s = IN_PROGRESS_INTERNAL \<and> request_handle s \<noteq> None)"
  shows "Cancel u s =
     Inr (s\<lparr>last_reason := (if u then DOWNLOAD_INTERRUPT_REASON_USER_CANCELED
                              else DOWNLOAD_INTERRUPT_REASON_USER_SHUTDOWN),
            download_file := (is_save_package_download s \<and> download_file s),
            state := CANCELLED_INTERNAL,
            effects := effects s @
              (if \<not> is_save_package_download s \<and> download_file s
               then [PostDownloadFileCancel] else []) @
              (if state s = INTERRUPTED_INTERNAL then [] else [CancelRequest]) @
              [OnDownloadUpdated]\<rparr>)"
  using assms
  by (auto simp add: Cancel_def Let_def CancelDownloadFile_def request_handle_call_def
      and_then_def TransitionTo_def UpdateObservers_def emit_def
      no_download_file keep_download_file)

lemma Cancel_state:
  "Cancel u s = Inr s' \<Longrightarrow>
   state s' \<noteq> IN_PROGRESS_INTERNAL \<and> state s' \<noteq> INTERRUPTED_INTERNAL"
  by (auto simp add: Cancel_def Let_def CancelDownloadFile_def request_handle_call_def
      and_then_Inr_iff TransitionTo_def UpdateObservers_def emit_def
      split: if_splits option.splits)

text \<open>
  C6: \<open>Cancel\<close> is a no-op unless the state is IN_PROGRESS or INTERRUPTED. When it acts
  (on an interrupted item, or on an item in progress that holds a request handle; a
  save-package item holding no download file: see \<open>run_consistent\<close> below) it sets
  \<open>last_reason\<close> to the user-cancelled reason if the flag is set and to the shutdown
  reason otherwise, discards the download file it holds so that none is held afterwards,
  calls \<open>CancelRequest\<close> unless the state was INTERRUPTED, and moves to CANCELLED,
  notifying the observers. Calling \<open>Cancel\<close> twice in a row gives the same item and the
  same trace as calling it once, on every item and for any two flags.
\<close>

theorem Cancel_behaviour:
  "(state s \<noteq> IN_PROGRESS_INTERNAL \<and> state s \<noteq> INTERRUPTED_INTERNAL \<longrightarrow>
      Cancel u s = Inr s) \<and>
   ((state s = INTERRUPTED_INTERNAL \<or>
     (state s = IN_PROGRESS_INTERNAL \<and> request_handle s \<noteq> None)) \<and>
    (is_save_package_download s \<longrightarrow> \<not> download_file s) \<longrightarrow>
      Cancel u s =
        Inr (s\<lparr>last_reason := (if u then DOWNLOAD_INTERRUPT_REASON_USER_CANCELED
                                 else DOWNLOAD_INTERRUPT_REASON_USER_SHUTDOWN),
               download_file := False,
               state := CANCELLED_INTERNAL,
               effects := effects s @
                 (if download_file s then [PostDownloadFileCancel] else []) @
                 (if state s = INTERRUPTED_INTERNAL then [] else [CancelRequest]) @
                 [OnDownloadUpdated]\<rparr>)) \<and>
   and_then (Cancel u s) (Cancel v) = Cancel u s"
proof (intro conjI impI)
  assume "state s \<noteq> IN_PROGRESS_INTERNAL \<and> state s \<noteq> INTERRUPTED_INTERNAL"
  then show "Cancel u s = Inr s" by (simp add: Cancel_def)
next
  assume a: "(state s = INTERRUPTED_INTERNAL \<or>
     (state s = IN_PROGRESS_INTERNAL \<and> request_handle s \<noteq> None)) \<and>
    (is_save_package_download s \<longrightarrow> \<not> download_file s)"
  then have "state s = INTERRUPTED_INTERNAL \<or>
     (state s = IN_PROGRESS_INTERNAL \<and> request_handle s \<noteq> None)" by simp
  from Cancel_acts [OF this, of u] a
  show "Cancel u s =
        Inr (s\<lparr>last_reason := (if u then DOWNLOAD_INTERRUPT_REASON_USER_CANCELED
                                 else DOWNLOAD_INTERRUPT_REASON_USER_SHUTDOWN),
               download_file := False,
               state := CANCELLED_INTERNAL,
               effects := effects s @
                 (if download_file s then [PostDownloadFileCancel] else []) @
                 (if state s = INTERRUPTED_INTERNAL then [] else [CancelRequest]) @
                 [OnDownloadUpdated]\<rparr>)"
    by auto
next
  show "and_then (Cancel u s) (Cancel v) = Cancel u s"
  proof (cases "Cancel u s")
    case (Inl e)
    then show ?thesis by (simp add: and_then_def)
  next
    case (Inr s')
    from Cancel_state [OF this] have "Cancel v s' = Inr s'" by (simp add: Cancel_def)
    with Inr show ?thesis by (simp add: and_then_def)
  qed
qed

theorem Cancel_behaviour_witness:
  "state started_item = IN_PROGRESS_INTERNAL \<and> request_handle started_item \<noteq> None \<and>
   \<not> is_save_package_download started_item \<and>
   Cancel True started_item =
     Inr (started_item\<lparr>last_reason := DOWNLOAD_INTERRUPT_REASON_USER_CANCELED,
            download_file := False, state := CANCELLED_INTERNAL,
            effects := [PostDownloadFileInitialize, PostDownloadFileCancel, CancelRequest,
                        OnDownloadUpdated]\<rparr>) \<and>
   state saved_page_item = IN_PROGRESS_INTERNAL \<and> request_handle saved_page_item \<noteq> None \<and>
   \<not> download_file saved_page_item \<and>
   Cancel False saved_page_item =
     Inr (saved_page_item\<lparr>last_reason := DOWNLOAD_INTERRUPT_REASON_USER_SHUTDOWN,
            download_file := False, state := CANCELLED_INTERNAL,
            effects := [CancelRequest, OnDownloadUpdated]\<rparr>) \<and>
   state paused_cancelled_item \<noteq> IN_PROGRESS_INTERNAL \<and>
   state paused_cancelled_item \<noteq> INTERRUPTED_INTERNAL \<and>
   Cancel False paused_cancelled_item = Inr paused_cancelled_item"
proof -
  have f: "state started_item = IN_PROGRESS_INTERNAL" "request_handle started_item \<noteq> None"
      "\<not> is_save_package_download started_item" "download_file started_item"
      "effects started_item = [PostDownloadFileInitialize]"
      "state paused_cancelled_item = CANCELLED_INTERNAL"
    by (simp_all add: paused_cancelled_item_def started_item_def fresh_item_def
        DownloadItemImpl_active_def Init_def)
  have g: "state saved_page_item = IN_PROGRESS_INTERNAL" "request_handle saved_page_item \<noteq> None"
      "\<not> download_file saved_page_item" "effects saved_page_item = []"
    by (simp_all add: saved_page_item_def DownloadItemImpl_save_package_def Init_def)
  from Cancel_behaviour [of started_item True False] f
  have 1: "Cancel True started_item =
     Inr (started_item\<lparr>last_reason := DOWNLOAD_INTERRUPT_REASON_USER_CANCELED,
            download_file := False, state := CANCELLED_INTERNAL,
            effects := [PostDownloadFileInitialize, PostDownloadFileCancel, CancelRequest,
                        OnDownloadUpdated]\<rparr>)"
    by simp
  from Cancel_behaviour [of paused_cancelled_item False False] f
  have 2: "Cancel False paused_cancelled_item = Inr paused_cancelled_item" by simp
  from Cancel_behaviour [of saved_page_item False False] g
  have 3: "Cancel False saved_page_item =
     Inr (saved_page_item\<lparr>last_reason := DOWNLOAD_INTERRUPT_REASON_USER_SHUTDOWN,
            download_file := False, state := CANCELLED_INTERNAL,
            effects := [CancelRequest, OnDownloadUpdated]\<rparr>)"
    by simp
  from 1 2 3 f g show ?thesis by simp
qed

subsection \<open>Manual resume\<close>

text \<open>What \<open>Resume\<close> does in the cases its code provides for.\<close>

lemma Resume_cases:
  "(\<not> is_paused s \<or> state s = COMPLETE_INTERNAL \<or> state s = COMPLETING_INTERNAL \<longrightarrow>
      Resume env s = Inr s) \<and>
   (is_paused s \<and> state s = INTERRUPTED_INTERNAL \<longrightarrow>
      Resume env s = ResumeInterruptedDownload env (s\<lparr>auto_resume_count := 0\<rparr>)) \<and>
   (is_paused s \<and> state s = IN_PROGRESS_INTERNAL \<and> request_handle s \<noteq> None \<longrightarrow>
      Resume env s =
        Inr (s\<lparr>is_paused := False,
               effects := effects s @ [ResumeRequest, OnDownloadUpdated]\<rparr>))"
  by (auto simp add: Resume_def dcheck_fails_def request_handle_call_def and_then_def
      UpdateObservers_def emit_def)

lemma Resume_counter:
  "Resume env s = Inr s' \<Longrightarrow>
   auto_resume_count s' = auto_resume_count s \<or> auto_resume_count s' = 0"
  by (auto simp add: Resume_def dcheck_fails_def request_handle_call_def and_then_Inr_iff
      UpdateObservers_def emit_def ResumeInterruptedDownload_def Let_def
      split: if_splits option.splits)

text \<open>
  C5 fails on the code for the terminal state CANCELLED. A download that is started,
  paused and then cancelled is CANCELLED and still flagged as paused. \<open>Resume\<close> on it is
  not a no-op: it passes the guard (which tests COMPLETE and COMPLETING), and reaches
  \<^verbatim>\<open>DCHECK_EQ(IN_PROGRESS_INTERNAL, state_)\<close>, which fails; in a build without \<^verbatim>\<open>DCHECK\<close>s
  it calls \<open>ResumeRequest\<close> on the cancelled request, clears the paused flag and notifies
  the observers.
\<close>

theorem Resume_after_pause_and_cancel:
  "run (pause_then_cancel debug_build) fresh_item = Inr paused_cancelled_item \<and>
   run (pause_then_cancel release_build) fresh_item = Inr paused_cancelled_item \<and>
   state paused_cancelled_item = CANCELLED_INTERNAL \<and> is_paused paused_cancelled_item \<and>
   Resume debug_build paused_cancelled_item = Inl DCHECK_failed \<and>
   Resume release_build paused_cancelled_item =
     Inr (paused_cancelled_item\<lparr>is_paused := False,
            effects := effects paused_cancelled_item @ [ResumeRequest, OnDownloadUpdated]\<rparr>) \<and>
   Resume release_build paused_cancelled_item \<noteq> Inr paused_cancelled_item"
  by (simp add: pause_then_cancel_def and_then_def Start_def Pause_def Cancel_def Resume_def
      dcheck_fails_def CancelDownloadFile_def request_handle_call_def TransitionTo_def Let_def
      UpdateObservers_def emit_def debug_build_def release_build_def paused_cancelled_item_def
      started_item_def fresh_item_def DownloadItemImpl_active_def Init_def)

subsection \<open>The completion gate\<close>

lemma IsDownloadReadyForCompletion_iff:
  "fst (IsDownloadReadyForCompletion env s) \<longleftrightarrow>
     all_data_saved s \<and> \<not> IsDangerous env s \<and> state s = IN_PROGRESS_INTERNAL \<and>
     target_path s \<noteq> [] \<and> DirName env (target_path s) = DirName env (current_path s) \<and>
     should_complete_download env"
  by (simp add: IsDownloadReadyForCompletion_def)

lemma MaybeCompleteDownload_dangerous:
  assumes "IsDangerous env s"
  shows "MaybeCompleteDownload env s = Inr s' \<longrightarrow> s' = s"
    and "\<not> is_save_package_download s \<longrightarrow> MaybeCompleteDownload env s = Inr s"
  using assms
  by (auto simp add: MaybeCompleteDownload_def IsDownloadReadyForCompletion_def
      dcheck_fails_def split: if_splits)

lemma DangerousDownloadValidated_unfold:
  assumes "IsDangerous env s" and "GetState s = IN_PROGRESS"
  shows "DangerousDownloadValidated env s =
     MaybeCompleteDownload env
       (UpdateObservers (s\<lparr>danger_type := DOWNLOAD_DANGER_TYPE_USER_VALIDATED\<rparr>))"
  using assms by (simp add: DangerousDownloadValidated_def dcheck_fails_def)

lemma DangerousDownloadValidated_completes:
  assumes "IsDangerous env s" and "all_data_saved s" and "state s = IN_PROGRESS_INTERNAL"
    and "target_path s \<noteq> []"
    and "DirName env (target_path s) = DirName env (current_path s)"
    and "should_complete_download env"
    and "\<not> is_save_package_download s" and "download_file s"
  shows "DangerousDownloadValidated env s =
     Inr (s\<lparr>danger_type := DOWNLOAD_DANGER_TYPE_USER_VALIDATED,
            effects := effects s @
              [OnDownloadUpdated, DelegateShouldCompleteDownload,
               PostRenameAndAnnotate (target_path s)]\<rparr>)"
  using assms
  by (simp add: DangerousDownloadValidated_def dcheck_fails_def GetState_def
      MaybeCompleteDownload_def IsDownloadReadyForCompletion_def OnDownloadCompleting_def
      IsDangerous_def UpdateObservers_def emit_def)

text \<open>
  C4: \<open>IsDownloadReadyForCompletion\<close> returns true if and only if all data is saved, the
  item is not dangerous (a user-validated danger type is not dangerous; a dangerous file
  is, on every platform), the internal state is IN_PROGRESS, the target path is not
  empty, target path and current path have the same parent directory, and the delegate's
  \<open>ShouldCompleteDownload\<close> answers true. So \<open>MaybeCompleteDownload\<close> on a dangerous item
  changes nothing, whatever \<open>all_data_saved\<close> is. \<open>DangerousDownloadValidated\<close> on a
  dangerous item in progress sets the danger type to user-validated, notifies the
  observers and calls \<open>MaybeCompleteDownload\<close> again; when danger was all that held the
  item back, the completion goes on: the final rename is requested.
\<close>

theorem completion_gate:
  "(fst (IsDownloadReadyForCompletion env s) \<longleftrightarrow>
      all_data_saved s \<and> \<not> IsDangerous env s \<and> state s = IN_PROGRESS_INTERNAL \<and>
      target_path s \<noteq> [] \<and> DirName env (target_path s) = DirName env (current_path s) \<and>
      should_complete_download env) \<and>
   (danger_type s = DOWNLOAD_DANGER_TYPE_USER_VALIDATED \<longrightarrow> \<not> IsDangerous env s) \<and>
   (danger_type s = DOWNLOAD_DANGER_TYPE_DANGEROUS_FILE \<longrightarrow> IsDangerous env s) \<and>
   (IsDangerous env s \<longrightarrow>
      \<not> fst (IsDownloadReadyForCompletion env s) \<and>
      (MaybeCompleteDownload env s = Inr s' \<longrightarrow> s' = s) \<and>
      (\<not> is_save_package_download s \<longrightarrow> MaybeCompleteDownload env s = Inr s)) \<and>
   (IsDangerous env s \<and> GetState s = IN_PROGRESS \<longrightarrow>
      DangerousDownloadValidated env s =
        MaybeCompleteDownload env
          (UpdateObservers (s\<lparr>danger_type := DOWNLOAD_DANGER_TYPE_USER_VALIDATED\<rparr>))) \<and>
   (IsDangerous env s \<and> all_data_saved s \<and> state s = IN_PROGRESS_INTERNAL \<and>
    target_path s \<noteq> [] \<and> DirName env (target_path s) = DirName env (current_path s) \<and>
    should_complete_download env \<and> \<not> is_save_package_download s \<and> download_file s \<longrightarrow>
      DangerousDownloadValidated env s =
        Inr (s\<lparr>danger_type := DOWNLOAD_DANGER_TYPE_USER_VALIDATED,
               effects := effects s @
                 [OnDownloadUpdated, DelegateShouldCompleteDownload,
                  PostRenameAndAnnotate (target_path s)]\<rparr>))"
proof (intro conjI impI)
  show "fst (IsDownloadReadyForCompletion env s) \<longleftrightarrow>
      all_data_saved s \<and> \<not> IsDangerous env s \<and> state s = IN_PROGRESS_INTERNAL \<and>
      target_path s \<noteq> [] \<and> DirName env (target_path s) = DirName env (current_path s) \<and>
      should_complete_download env"
    by (rule IsDownloadReadyForCompletion_iff)
next
  assume "danger_type s = DOWNLOAD_DANGER_TYPE_USER_VALIDATED"
  then show "\<not> IsDangerous env s" by (simp add: IsDangerous_def)
next
  assume "danger_type s = DOWNLOAD_DANGER_TYPE_DANGEROUS_FILE"
  then show "IsDangerous env s" by (simp add: IsDangerous_def)
next
  assume "IsDangerous env s"
  then show "\<not> fst (IsDownloadReadyForCompletion env s)"
    by (simp add: IsDownloadReadyForCompletion_iff)
next
  assume "IsDangerous env s" and "MaybeCompleteDownload env s = Inr s'"
  then show "s' = s" using MaybeCompleteDownload_dangerous(1) by blast
next
  assume "IsDangerous env s" and "\<not> is_save_package_download s"
  then show "MaybeCompleteDownload env s = Inr s"
    using MaybeCompleteDownload_dangerous(2) by blast
next
  assume "IsDangerous env s \<and> GetState s = IN_PROGRESS"
  then show "DangerousDownloadValidated env s =
        MaybeCompleteDownload env
          (UpdateObservers (s\<lparr>danger_type := DOWNLOAD_DANGER_TYPE_USER_VALIDATED\<rparr>))"
    by (simp add: DangerousDownloadValidated_unfold)
next
  assume "IsDangerous env s \<and> all_data_saved s \<and> state s = IN_PROGRESS_INTERNAL \<and>
    target_path s \<noteq> [] \<and> DirName env (target_path s) = DirName env (current_path s) \<and>
    should_complete_download env \<and> \<not> is_save_package_download s \<and> download_file s"
  then show "DangerousDownloadValidated env s =
        Inr (s\<lparr>danger_type := DOWNLOAD_DANGER_TYPE_USER_VALIDATED,
               effects := effects s @
                 [OnDownloadUpdated, DelegateShouldCompleteDownload,
                  PostRenameAndAnnotate (target_path s)]\<rparr>)"
    by (intro DangerousDownloadValidated_completes) simp_all
qed

theorem completion_gate_witness:
  "all_data_saved dangerous_item \<and> IsDangerous debug_build dangerous_item \<and>
   \<not> fst (IsDownloadReadyForCompletion debug_build dangerous_item) \<and>
   MaybeCompleteDownload debug_build dangerous_item = Inr dangerous_item \<and>
   DangerousDownloadValidated debug_build dangerous_item =
     Inr (dangerous_item\<lparr>danger_type := DOWNLOAD_DANGER_TYPE_USER_VALIDATED,
            effects := [PostDownloadFileInitialize, OnDownloadUpdated,
                        DelegateShouldCompleteDownload, PostRenameAndAnnotate ''/d/a.txt'']\<rparr>) \<and>
   fst (IsDownloadReadyForCompletion debug_build
          (dangerous_item\<lparr>danger_type := DOWNLOAD_DANGER_TYPE_USER_VALIDATED\<rparr>))"
proof -
  have d: "parent_directory ''/d/a.txt'' = ''/d''"
      "parent_directory ''/d/a.txt.crdownload'' = ''/d''"
    by (simp_all add: parent_directory_def)
  have f: "danger_type dangerous_item = DOWNLOAD_DANGER_TYPE_DANGEROUS_FILE"
      "all_data_saved dangerous_item" "state dangerous_item = IN_PROGRESS_INTERNAL"
      "target_path dangerous_item = ''/d/a.txt''"
      "current_path dangerous_item = ''/d/a.txt.crdownload''"
      "\<not> is_save_package_download dangerous_item" "download_file dangerous_item"
      "effects dangerous_item = [PostDownloadFileInitialize]"
      "should_complete_download debug_build" "DirName debug_build = parent_directory"
    by (simp_all add: dangerous_item_def started_item_def fresh_item_def
        DownloadItemImpl_active_def Init_def debug_build_def)
  note a = completion_gate [of debug_build dangerous_item dangerous_item]
  note b = completion_gate [of debug_build
      "dangerous_item\<lparr>danger_type := DOWNLOAD_DANGER_TYPE_USER_VALIDATED\<rparr>" dangerous_item]
  from a f have 1: "IsDangerous debug_build dangerous_item" by blast
  from a 1 f have 2: "\<not> fst (IsDownloadReadyForCompletion debug_build dangerous_item)"
      "MaybeCompleteDownload debug_build dangerous_item = Inr dangerous_item"
    by blast+
  from a 1 f d have 3: "DangerousDownloadValidated debug_build dangerous_item =
     Inr (dangerous_item\<lparr>danger_type := DOWNLOAD_DANGER_TYPE_USER_VALIDATED,
            effects := [PostDownloadFileInitialize, OnDownloadUpdated,
                        DelegateShouldCompleteDownload, PostRenameAndAnnotate ''/d/a.txt'']\<rparr>)"
    by simp
  from b f d have 4: "fst (IsDownloadReadyForCompletion debug_build
          (dangerous_item\<lparr>danger_type := DOWNLOAD_DANGER_TYPE_USER_VALIDATED\<rparr>))"
    by simp
  from 1 2 3 4 f show ?thesis by simp
qed

subsection \<open>Progress updates\<close>

text \<open>What is right in C7: \<open>UpdateProgress\<close>, and the run of the specification.\<close>

lemma UpdateProgress_cases:
  "(state s \<noteq> IN_PROGRESS_INTERNAL \<longrightarrow> UpdateProgress b r h s = s) \<and>
   (state s = IN_PROGRESS_INTERNAL \<longrightarrow>
      UpdateProgress b r h s =
        s\<lparr>bytes_per_sec := r, hash_state := h, received_bytes := b,
          total_bytes := (if total_bytes s <s b then 0 else total_bytes s),
          effects := effects s @ [OnDownloadUpdated]\<rparr>)"
  by (simp add: UpdateProgress_def Let_def UpdateObservers_def emit_def)

lemma DestinationUpdate_cases:
  "(state s \<noteq> IN_PROGRESS_INTERNAL \<and> state s \<noteq> COMPLETING_INTERNAL \<longrightarrow>
      DestinationUpdate b r h s = s) \<and>
   (state s = IN_PROGRESS_INTERNAL \<or> state s = COMPLETING_INTERNAL \<longrightarrow>
      DestinationUpdate b r h s =
        s\<lparr>bytes_per_sec := r, hash_state := h, received_bytes := b,
          total_bytes := (if total_bytes s <s b then 0 else total_bytes s),
          effects := effects s @ [OnDownloadUpdated]\<rparr>)"
  by (auto simp add: DestinationUpdate_def IsInProgress_iff Let_def UpdateObservers_def emit_def)

lemma PercentComplete_scenario:
  "total_bytes started_item = 1000 \<and>
   PercentComplete (UpdateProgress 500 100 [] started_item) = Some 50 \<and>
   total_bytes (UpdateProgress 1200 100 [] (UpdateProgress 500 100 [] started_item)) = 0 \<and>
   PercentComplete (UpdateProgress 1200 100 [] (UpdateProgress 500 100 [] started_item))
     = Some (- 1)"
  by (simp add: PercentComplete_def UpdateProgress_def Let_def UpdateObservers_def emit_def
      word_sless_alt word_sle_eq signed_divide_int_def started_item_def fresh_item_def
      DownloadItemImpl_active_def Init_def)

text \<open>
  C7 fails on the code for \<open>DestinationUpdate\<close>. Its guard is \<^verbatim>\<open>!IsInProgress()\<close>, a test of
  the external state, which is IN_PROGRESS also for the internal state COMPLETING, where
  the guard of its twin \<open>UpdateProgress\<close> is \<^verbatim>\<open>state_ != IN_PROGRESS_INTERNAL\<close>. The item that has
  run through the completion cascade and waits in COMPLETING is not IN_PROGRESS, and a
  \<open>DestinationUpdate\<close> still overwrites its received bytes, its rate and the hash state that
  \<open>OnAllDataSaved\<close> had cleared; \<open>UpdateProgress\<close> with the same arguments leaves it alone.
\<close>

theorem DestinationUpdate_while_completing:
  "run completion_cascade fresh_item = Inr completing_item \<and>
   state completing_item = COMPLETING_INTERNAL \<and>
   state completing_item \<noteq> IN_PROGRESS_INTERNAL \<and>
   received_bytes completing_item = 1000 \<and> bytes_per_sec completing_item = 50 \<and>
   hash_state completing_item = [] \<and>
   received_bytes (DestinationUpdate 7 1 ''x'' completing_item) = 7 \<and>
   bytes_per_sec (DestinationUpdate 7 1 ''x'' completing_item) = 1 \<and>
   hash_state (DestinationUpdate 7 1 ''x'' completing_item) = ''x'' \<and>
   UpdateProgress 7 1 ''x'' completing_item = completing_item"
proof -
  have 1: "run completion_cascade fresh_item = Inr completing_item"
    by (simp add: completion_cascade_def and_then_def Start_def
        OnDownloadFileInitialized_def OnDownloadTargetDetermined_def
        OnDownloadRenamedToIntermediateName_def DestinationUpdate_def DestinationCompleted_def
        OnDownloadRenamedToFinalName_def OnAllDataSaved_def MaybeCompleteDownload_def
        IsDownloadReadyForCompletion_def OnDownloadCompleting_def SetFullPath_def
        SetDangerType_def IsDangerous_def IsInProgress_def dcheck_fails_def
        TransitionTo_def Let_def UpdateObservers_def emit_def word_sless_alt
        parent_directory_def debug_build_def completing_item_def started_item_def
        fresh_item_def DownloadItemImpl_active_def Init_def)
  have 2: "state completing_item = COMPLETING_INTERNAL"
      "received_bytes completing_item = 1000" "bytes_per_sec completing_item = 50"
      "hash_state completing_item = []" "total_bytes completing_item = 1000"
    by (simp_all add: completing_item_def started_item_def fresh_item_def
        DownloadItemImpl_active_def Init_def)
  have 3: "received_bytes (DestinationUpdate 7 1 ''x'' completing_item) = 7"
      "bytes_per_sec (DestinationUpdate 7 1 ''x'' completing_item) = 1"
      "hash_state (DestinationUpdate 7 1 ''x'' completing_item) = ''x''"
    using 2 by (simp_all add: DestinationUpdate_def IsInProgress_def Let_def UpdateObservers_def
        emit_def)
  have 4: "UpdateProgress 7 1 ''x'' completing_item = completing_item"
    using 2 by (simp add: UpdateProgress_def)
  from 1 2 3 4 show ?thesis by simp
qed

subsection \<open>Who holds a download file and a request handle\<close>

text \<open>
  Only \<open>Start\<close> stores a request handle or a download file in the item; every other
  method keeps the handle and the kind of the item and at most gives the file away.
  So an item that holds a request handle, and no download file if it is a save-package
  item, stays so along every history in which \<open>Start\<close> is called as its assertions ask
  (with a request handle) and on regular downloads only.
\<close>

named_theorems kept \<open>total methods keep the handles\<close>
named_theorems kept_dest \<open>fallible methods keep the handles\<close>

lemma total_methods_kept [kept]:
  "handles_kept s s"
  "handles_kept s (emit e s)"
  "handles_kept s (UpdateObservers s)"
  "handles_kept s (TransitionTo st s)"
  "handles_kept s (CancelDownloadFile s)"
  "handles_kept s (SetDangerType dt s)"
  "handles_kept s (OpenDownload s)"
  "handles_kept s (ShowDownloadInShell s)"
  "handles_kept s (SetOpenWhenComplete b s)"
  "handles_kept s (SetIsTemporary b s)"
  "handles_kept s (SetOpened b s)"
  "handles_kept s (SetDisplayName p s)"
  "handles_kept s (SetTotalBytes n s)"
  "handles_kept s (OnDownloadedFileRemoved s)"
  "handles_kept s (UpdateProgress x r h s)"
  "handles_kept s (DestinationUpdate x r h s)"
  by (simp_all add: handles_kept_def emit_def UpdateObservers_def TransitionTo_def Let_def
      CancelDownloadFile_def SetDangerType_def OpenDownload_def ShowDownloadInShell_def
      SetOpenWhenComplete_def SetIsTemporary_def SetOpened_def SetDisplayName_def
      SetTotalBytes_def OnDownloadedFileRemoved_def UpdateProgress_def DestinationUpdate_def)

lemma request_handle_call_kept [kept_dest]:
  "request_handle_call e s = Inr s' \<Longrightarrow> handles_kept s s'"
  by (auto simp add: request_handle_call_def emit_def handles_kept_def split: option.splits)

lemma SetFullPath_kept [kept_dest]:
  "SetFullPath env p s = Inr s' \<Longrightarrow> handles_kept s s'"
  by (auto simp add: SetFullPath_def UpdateObservers_def emit_def handles_kept_def
      split: if_splits)

lemma ResumeInterruptedDownload_kept [kept_dest]:
  "ResumeInterruptedDownload env s = Inr s' \<Longrightarrow> handles_kept s s'"
  by (auto simp add: ResumeInterruptedDownload_def Let_def emit_def handles_kept_def
      split: if_splits)

lemma AutoResumeIfValid_kept [kept_dest]:
  "AutoResumeIfValid env s = Inr s' \<Longrightarrow> handles_kept s s'"
  by (auto simp add: AutoResumeIfValid_def Let_def handles_kept_def split: if_splits
      dest!: ResumeInterruptedDownload_kept)

lemma Interrupt_kept [kept_dest]:
  "Interrupt env r s = Inr s' \<Longrightarrow> handles_kept s s'"
  by (auto simp add: Interrupt_def Let_def and_then_Inr_iff handles_kept_def
      CancelDownloadFile_def TransitionTo_def UpdateObservers_def emit_def split: if_splits
      dest!: AutoResumeIfValid_kept request_handle_call_kept)

lemma Pause_kept [kept_dest]: "Pause s = Inr s' \<Longrightarrow> handles_kept s s'"
  by (auto simp add: Pause_def and_then_Inr_iff handles_kept_def UpdateObservers_def emit_def
      split: if_splits dest!: request_handle_call_kept)

lemma Resume_kept [kept_dest]: "Resume env s = Inr s' \<Longrightarrow> handles_kept s s'"
  by (auto simp add: Resume_def and_then_Inr_iff handles_kept_def UpdateObservers_def emit_def
      split: if_splits dest!: request_handle_call_kept ResumeInterruptedDownload_kept)

lemma Cancel_kept [kept_dest]: "Cancel u s = Inr s' \<Longrightarrow> handles_kept s s'"
  by (auto simp add: Cancel_def Let_def and_then_Inr_iff handles_kept_def
      CancelDownloadFile_def TransitionTo_def UpdateObservers_def emit_def split: if_splits
      dest!: request_handle_call_kept)

lemma Remove_kept [kept_dest]: "Remove s = Inr s' \<Longrightarrow> handles_kept s s'"
  by (auto simp add: Remove_def and_then_Inr_iff handles_kept_def emit_def dest!: Cancel_kept)

lemma Delete_kept [kept_dest]: "Delete r s = Inr s' \<Longrightarrow> handles_kept s s'"
  by (auto simp add: Delete_def handles_kept_def emit_def split: if_splits dest!: Remove_kept)

lemma OnContentCheckCompleted_kept [kept_dest]:
  "OnContentCheckCompleted env dt s = Inr s' \<Longrightarrow> handles_kept s s'"
  by (auto simp add: OnContentCheckCompleted_def handles_kept_def SetDangerType_def
      UpdateObservers_def emit_def split: if_splits)

lemma MarkAsComplete_kept [kept_dest]:
  "MarkAsComplete env s = Inr s' \<Longrightarrow> handles_kept s s'"
  by (auto simp add: MarkAsComplete_def kept split: if_splits)

lemma OnAllDataSaved_kept [kept_dest]:
  "OnAllDataSaved env h s = Inr s' \<Longrightarrow> handles_kept s s'"
  by (auto simp add: OnAllDataSaved_def handles_kept_def UpdateObservers_def emit_def
      split: if_splits)

lemma Completed_kept [kept_dest]:
  "Completed env s = Inr s' \<Longrightarrow> handles_kept s s'"
  by (auto simp add: Completed_def Let_def handles_kept_def TransitionTo_def OpenDownload_def
      UpdateObservers_def emit_def split: if_splits)

lemma OnDownloadCompleting_kept [kept_dest]:
  "OnDownloadCompleting env s = Inr s' \<Longrightarrow> handles_kept s s'"
  by (auto simp add: OnDownloadCompleting_def handles_kept_def emit_def split: if_splits
      dest!: Completed_kept)

lemma MaybeCompleteDownload_kept [kept_dest]:
  "MaybeCompleteDownload env s = Inr s' \<Longrightarrow> handles_kept s s'"
  by (auto simp add: MaybeCompleteDownload_def IsDownloadReadyForCompletion_def
      handles_kept_def emit_def split: if_splits dest!: OnDownloadCompleting_kept)

lemma DangerousDownloadValidated_kept [kept_dest]:
  "DangerousDownloadValidated env s = Inr s' \<Longrightarrow> handles_kept s s'"
  by (auto simp add: DangerousDownloadValidated_def handles_kept_def UpdateObservers_def
      emit_def split: if_splits dest!: MaybeCompleteDownload_kept)

lemma DestinationCompleted_kept [kept_dest]:
  "DestinationCompleted env h s = Inr s' \<Longrightarrow> handles_kept s s'"
  by (auto simp add: DestinationCompleted_def and_then_Inr_iff handles_kept_def
      split: if_splits dest!: MaybeCompleteDownload_kept OnAllDataSaved_kept)

lemma OnDownloadFileInitialized_kept [kept_dest]:
  "OnDownloadFileInitialized env r s = Inr s' \<Longrightarrow> handles_kept s s'"
  by (auto simp add: OnDownloadFileInitialized_def and_then_Inr_iff handles_kept_def emit_def
      split: if_splits dest!: MaybeCompleteDownload_kept Interrupt_kept)

lemma OnDownloadTargetDetermined_kept [kept_dest]:
  "OnDownloadTargetDetermined env tp d dt ip s = Inr s' \<Longrightarrow> handles_kept s s'"
  by (auto simp add: OnDownloadTargetDetermined_def Let_def handles_kept_def SetDangerType_def
      emit_def split: if_splits dest!: Cancel_kept)

lemma OnDownloadRenamedToIntermediateName_kept [kept_dest]:
  "OnDownloadRenamedToIntermediateName env r p s = Inr s' \<Longrightarrow> handles_kept s s'"
  by (auto simp add: OnDownloadRenamedToIntermediateName_def and_then_Inr_iff handles_kept_def
      emit_def split: if_splits
      dest!: MaybeCompleteDownload_kept Interrupt_kept SetFullPath_kept)

lemma OnDownloadRenamedToFinalName_kept [kept_dest]:
  "OnDownloadRenamedToFinalName env r p s = Inr s' \<Longrightarrow> handles_kept s s'"
  by (auto simp add: OnDownloadRenamedToFinalName_def and_then_Inr_iff Let_def handles_kept_def
      TransitionTo_def UpdateObservers_def emit_def split: if_splits
      dest!: Completed_kept Interrupt_kept SetFullPath_kept)

lemma DelayedDownloadOpened_kept [kept_dest]:
  "DelayedDownloadOpened env b s = Inr s' \<Longrightarrow> handles_kept s s'"
  by (auto simp add: DelayedDownloadOpened_def handles_kept_def dest!: Completed_kept)

lemma step_kept:
  assumes "step env ev s = Inr s'" and "\<And>f r. ev \<noteq> Call_Start f r"
  shows "handles_kept s s'"
  using assms
  by (cases ev) (auto simp add: kept DestinationError_def dest: kept_dest)

lemma Start_handles:
  assumes "Start env f r s = Inr s'"
  shows "request_handle s' = r \<and> download_file s' = f \<and>
         is_save_package_download s' = is_save_package_download s"
  using assms
  by (auto simp add: Start_def Let_def TransitionTo_def UpdateObservers_def emit_def
      split: if_splits)

lemma step_consistent:
  assumes "step env ev s = Inr s'"
    and "handles_consistent s \<or> (\<exists>f r. ev = Call_Start f r)"
    and "\<And>f r. ev = Call_Start f r \<Longrightarrow> r \<noteq> None \<and> \<not> is_save_package_download s"
  shows "handles_consistent s' \<and> is_save_package_download s' = is_save_package_download s"
proof (cases "\<exists>f r. ev = Call_Start f r")
  case True
  then obtain f r where ev: "ev = Call_Start f r" by blast
  with assms(1) have "Start env f r s = Inr s'" by simp
  from Start_handles [OF this] assms(3) [OF ev] show ?thesis
    by (simp add: handles_consistent_def)
next
  case False
  then have "handles_kept s s'" using step_kept [OF assms(1)] by blast
  moreover from False assms(2) have "handles_consistent s" by blast
  ultimately show ?thesis
    by (auto simp add: handles_kept_def handles_consistent_def)
qed

lemma run_consistent:
  "run evs s = Inr s' \<Longrightarrow> handles_consistent s \<Longrightarrow>
   (\<And>env f r. (env, Call_Start f r) \<in> set evs \<Longrightarrow>
      r \<noteq> None \<and> \<not> is_save_package_download s) \<Longrightarrow>
   handles_consistent s'"
proof (induction evs arbitrary: s)
  case Nil
  then show ?case by simp
next
  case (Cons a evs)
  obtain env ev where a: "a = (env, ev)" by (cases a)
  from Cons.prems(1) obtain s1 where s1: "step env ev s = Inr s1" "run evs s1 = Inr s'"
    by (auto simp add: a and_then_Inr_iff)
  have "\<And>f r. ev = Call_Start f r \<Longrightarrow> r \<noteq> None \<and> \<not> is_save_package_download s"
    using Cons.prems(3) [of env] by (auto simp add: a)
  from step_consistent [OF s1(1) _ this] Cons.prems(2)
  have c: "handles_consistent s1" "is_save_package_download s1 = is_save_package_download s"
    by simp_all
  have "\<And>env f r. (env, Call_Start f r) \<in> set evs \<Longrightarrow>
      r \<noteq> None \<and> \<not> is_save_package_download s1"
    using Cons.prems(3) c(2) by auto
  from Cons.IH [OF s1(2) c(1) this] show ?case .
qed

lemma constructed_items_consistent:
  "handles_consistent (DownloadItemImpl_save_package path)"
  "Start env f (Some h) (DownloadItemImpl_active total_b forced_path prompt) = Inr s' \<Longrightarrow>
   handles_consistent s'"
  by (auto simp add: handles_consistent_def DownloadItemImpl_save_package_def
      DownloadItemImpl_active_def Init_def Start_def Let_def TransitionTo_def emit_def
      split: if_splits)

end
